theory Spec2Isabelle
  imports Main "HOL-Library.Word" "HOL-Library.Sublist"
begin

section \<open>JavaScript values used by the connection wrapper\<close>

text \<open>
  A JavaScript string is a sequence of 16-bit code units. String literals of the source
  are ASCII; \<open>str\<close> turns an ASCII literal into its code units.
\<close>

type_synonym jsstring = "16 word list"

definition str :: "string \<Rightarrow> jsstring" where
  "str s = map (\<lambda>c. of_nat (of_char c)) s"

text \<open>
  The exceptions that occur: the \<open>URIError\<close> of \<open>encodeURIComponent\<close>, the \<open>TypeError\<close> of
  a failed conversion or property read, and \<open>new Error(cause)\<close>, which \<open>errorMessage\<close>
  throws. An exception of the driver or of a user-defined conversion is some value of
  this type.
\<close>

datatype error = URIError | TypeError | Error error

text \<open>
  The value of an option. A missing property reads as \<open>undefined\<close>. Besides the four
  kinds the constructor treats specially, \<open>JOther t b s c\<close> stands for every other value
  (a number, a bigint, a symbol, a function, an object such as a \<open>Buffer\<close>), given by all
  the constructor can observe of it: its \<open>typeof\<close> \<open>t\<close>, its truthiness \<open>b\<close>, the outcome
  \<open>s\<close> of \<open>ToString\<close>, which \<open>encodeURIComponent\<close> applies to its argument, and the
  outcome \<open>c\<close> of its conversion as an operand of \<open>+\<close> with a string (\<open>ToPrimitive\<close>
  without hint, then \<open>ToString\<close>). For an object the two conversions run its own
  \<open>toString\<close> and \<open>valueOf\<close> methods, in different orders, and may throw anything; for a
  symbol both throw \<open>TypeError\<close>. The constructor converts each option value at most once.
\<close>

datatype jstype = TyNumber | TyBigInt | TySymbol | TyObject | TyFunction

datatype jsval =
    JUndefined
  | JNull
  | JBool bool
  | JStr jsstring
  | JOther jstype bool "error + jsstring" "error + jsstring"

fun ToBoolean :: "jsval \<Rightarrow> bool" where
  "ToBoolean JUndefined = False"
| "ToBoolean JNull = False"
| "ToBoolean (JBool b) = b"
| "ToBoolean (JStr s) = (s \<noteq> [])"
| "ToBoolean (JOther t b s c) = b"

fun typeof :: "jsval \<Rightarrow> string" where
  "typeof JUndefined = ''undefined''"
| "typeof JNull = ''object''"
| "typeof (JBool b) = ''boolean''"
| "typeof (JStr s) = ''string''"
| "typeof (JOther t b s c) =
     (case t of
        TyNumber \<Rightarrow> ''number''
      | TyBigInt \<Rightarrow> ''bigint''
      | TySymbol \<Rightarrow> ''symbol''
      | TyObject \<Rightarrow> ''object''
      | TyFunction \<Rightarrow> ''function'')"

fun ToString :: "jsval \<Rightarrow> error + jsstring" where
  "ToString JUndefined = Inr (str ''undefined'')"
| "ToString JNull = Inr (str ''null'')"
| "ToString (JBool b) = Inr (if b then str ''true'' else str ''false'')"
| "ToString (JStr s) = Inr s"
| "ToString (JOther t b s c) = s"

text \<open>\<open>stringOperand v\<close>: the text that \<open>v\<close> contributes to \<open>aString + v\<close>.\<close>

fun stringOperand :: "jsval \<Rightarrow> error + jsstring" where
  "stringOperand JUndefined = Inr (str ''undefined'')"
| "stringOperand JNull = Inr (str ''null'')"
| "stringOperand (JBool b) = Inr (if b then str ''true'' else str ''false'')"
| "stringOperand (JStr s) = Inr s"
| "stringOperand (JOther t b s c) = c"

text \<open>
  The options object and its two option tables are plain data: reading a property
  yields its value and has no other effect. A table (\<open>tlsOptions\<close>, \<open>clientOptions\<close>) is
  \<open>None\<close> when the property is missing or holds another falsy value; otherwise it is the
  list of the own enumerable properties of the value, in the order \<open>Object.keys\<close> reports
  them, and reading \<open>o[key]\<close> inside the loop over \<open>Object.keys(o)\<close> yields the value
  paired with the key.
\<close>

type_synonym jsobject = "(jsstring \<times> jsval) list"

section \<open>The built-in \<open>encodeURIComponent\<close>\<close>

text \<open>
  ECMAScript \<open>Encode\<close> with the unreserved set of \<open>encodeURIComponent\<close>: letters, digits
  and \<open>- _ . ! ~ * ' ( )\<close> are copied; every other code point is written as the
  percent-escaped octets of its UTF-8 encoding, with upper-case hexadecimal digits. A
  surrogate code unit that is not part of a pair raises \<open>URIError\<close>.
\<close>

definition uriUnreserved :: "16 word \<Rightarrow> bool" where
  "uriUnreserved c \<longleftrightarrow>
     (0x41 \<le> c \<and> c \<le> 0x5A) \<or> (0x61 \<le> c \<and> c \<le> 0x7A) \<or> (0x30 \<le> c \<and> c \<le> 0x39)
     \<or> c = 0x2D \<or> c = 0x5F \<or> c = 0x2E \<or> c = 0x21 \<or> c = 0x7E
     \<or> c = 0x2A \<or> c = 0x27 \<or> c = 0x28 \<or> c = 0x29"

definition isLeadSurrogate :: "16 word \<Rightarrow> bool" where
  "isLeadSurrogate c \<longleftrightarrow> 0xD800 \<le> c \<and> c \<le> 0xDBFF"

definition isTrailSurrogate :: "16 word \<Rightarrow> bool" where
  "isTrailSurrogate c \<longleftrightarrow> 0xDC00 \<le> c \<and> c \<le> 0xDFFF"

definition UTF16SurrogatePairToCodePoint :: "16 word \<Rightarrow> 16 word \<Rightarrow> nat" where
  "UTF16SurrogatePairToCodePoint lead trail =
     (unat lead - 0xD800) * 0x400 + (unat trail - 0xDC00) + 0x10000"

type_synonym octet = nat

definition utf8_octets :: "nat \<Rightarrow> octet list" where
  "utf8_octets cp =
     (if cp < 0x80 then [cp]
      else if cp < 0x800 then [0xC0 + cp div 0x40, 0x80 + cp mod 0x40]
      else if cp < 0x10000 then
        [0xE0 + cp div 0x1000, 0x80 + (cp div 0x40) mod 0x40, 0x80 + cp mod 0x40]
      else
        [0xF0 + cp div 0x40000, 0x80 + (cp div 0x1000) mod 0x40,
         0x80 + (cp div 0x40) mod 0x40, 0x80 + cp mod 0x40])"

definition hexDigit :: "nat \<Rightarrow> 16 word" where
  "hexDigit d = (if d < 10 then of_nat (0x30 + d) else of_nat (0x41 + (d - 10)))"

definition percentEscape :: "octet \<Rightarrow> jsstring" where
  "percentEscape b = [0x25, hexDigit (b div 16), hexDigit (b mod 16)]"

fun Encode :: "jsstring \<Rightarrow> error + jsstring" where
  "Encode [] = Inr []"
| "Encode (c # cs) =
     (if uriUnreserved c then
        (case Encode cs of Inl e \<Rightarrow> Inl e | Inr r \<Rightarrow> Inr (c # r))
      else if isTrailSurrogate c then Inl URIError
      else if isLeadSurrogate c then
        (case cs of
           [] \<Rightarrow> Inl URIError
         | d # ds \<Rightarrow>
             if isTrailSurrogate d then
               (case Encode ds of
                  Inl e \<Rightarrow> Inl e
                | Inr r \<Rightarrow>
                    Inr (concat (map percentEscape
                           (utf8_octets (UTF16SurrogatePairToCodePoint c d))) @ r))
             else Inl URIError)
      else
        (case Encode cs of
           Inl e \<Rightarrow> Inl e
         | Inr r \<Rightarrow> Inr (concat (map percentEscape (utf8_octets (unat c))) @ r)))"

definition encodeURIComponent :: "jsval \<Rightarrow> error + jsstring" where
  "encodeURIComponent v = (case ToString v of Inl e \<Rightarrow> Inl e | Inr s \<Rightarrow> Encode s)"

section \<open>The string table \<open>MONGOWRAPPER_CONSTANTS\<close>\<close>

text \<open>
  \<open>MongoDB.js\<close> reads its separators, parameter names and mechanism names from
  \<open>./constants/constants\<close>. The constructor is parametric in that table.
\<close>

record constants =
  MONGOSERVER :: jsstring
  MONGOSERVER_SVR :: jsstring
  COLON :: jsstring
  AT :: jsstring
  SLASH :: jsstring
  BEGINNING_STRING :: jsstring
  AUTH_SOURCE :: jsstring
  AUTH_MECHANISM :: jsstring
  EQUAL_SIGN :: jsstring
  AND :: jsstring
  DEFAULT :: jsstring
  SCRAM_256 :: jsstring
  SCRAM_1 :: jsstring
  TLS :: jsstring

text \<open>
  Modelled from the spec: the table \<open>MONGOWRAPPER_CONSTANTS\<close> of
  \<open>databaseManager/constants/constants.js\<close>, which is missing from the sources. The
  specification fixes the separators (\<open>:\<close>, \<open>@\<close>, \<open>/\<close>, \<open>/?\<close>, \<open>=\<close>, \<open>&\<close>), the parameter
  names \<open>authSource\<close> and \<open>authMechanism\<close> and the mechanism names \<open>DEFAULT\<close>,
  \<open>SCRAM-SHA-256\<close> and \<open>SCRAM-SHA-1\<close>. It names the two scheme prefixes without giving
  their text, and its name for the certificate mechanism differs from the one in the
  constructor's documentation, so these three strings stay parameters.
\<close>

definition MONGOWRAPPER_CONSTANTS :: "jsstring \<Rightarrow> jsstring \<Rightarrow> jsstring \<Rightarrow> constants" where
  "MONGOWRAPPER_CONSTANTS direct svr x509 =
     \<lparr> MONGOSERVER = direct, MONGOSERVER_SVR = svr,
       COLON = str '':'', AT = str ''@'', SLASH = str ''/'', BEGINNING_STRING = str ''/?'',
       AUTH_SOURCE = str ''authSource'', AUTH_MECHANISM = str ''authMechanism'',
       EQUAL_SIGN = str ''='', AND = str ''&'',
       DEFAULT = str ''DEFAULT'', SCRAM_256 = str ''SCRAM-SHA-256'',
       SCRAM_1 = str ''SCRAM-SHA-1'', TLS = x509 \<rparr>"

section \<open>The constructor of \<open>MongoManager\<close>\<close>

record options =
  connectionUri :: jsval
  username :: jsval
  password :: jsval
  host :: jsval
  loginDatabase :: jsval
  authSource :: jsval
  svrString :: jsval
  authMechanism :: jsval
  tlsOptions :: "jsobject option"
  clientOptions :: "jsobject option"

text \<open>
  The loop over \<open>Object.keys(options.tlsOptions)\<close> (lines 92 to 106): string values are
  percent-encoded, all other values are concatenated as they are. The accumulator is the
  local variable \<open>clientOptions\<close>.
\<close>

fun tlsOptionsLoop :: "constants \<Rightarrow> jsobject \<Rightarrow> jsstring \<Rightarrow> error + jsstring" where
  "tlsOptionsLoop K [] acc = Inr acc"
| "tlsOptionsLoop K ((tlsOptionKey, v) # rest) acc =
     (if typeof v = ''string'' then
        (case encodeURIComponent v of
           Inl e \<Rightarrow> Inl e
         | Inr enc \<Rightarrow> tlsOptionsLoop K rest (acc @ AND K @ tlsOptionKey @ EQUAL_SIGN K @ enc))
      else
        (case stringOperand v of
           Inl e \<Rightarrow> Inl e
         | Inr text \<Rightarrow> tlsOptionsLoop K rest (acc @ AND K @ tlsOptionKey @ EQUAL_SIGN K @ text)))"

text \<open>The loop over \<open>Object.keys(options.clientOptions)\<close> (lines 125 to 130).\<close>

fun clientOptionsLoop :: "constants \<Rightarrow> jsobject \<Rightarrow> jsstring \<Rightarrow> error + jsstring" where
  "clientOptionsLoop K [] acc = Inr acc"
| "clientOptionsLoop K ((clientOptionKey, v) # rest) acc =
     (case stringOperand v of
        Inl e \<Rightarrow> Inl e
      | Inr text \<Rightarrow>
          clientOptionsLoop K rest (acc @ AND K @ clientOptionKey @ EQUAL_SIGN K @ text))"

text \<open>Lines 56 to 60: the scheme prefix followed by the encoded user name.\<close>

definition baseUri :: "constants \<Rightarrow> options \<Rightarrow> jsstring \<Rightarrow> jsstring" where
  "baseUri K opts user =
     (if ToBoolean (svrString opts) then MONGOSERVER_SVR K @ user else MONGOSERVER K @ user)"

text \<open>Lines 49 and 63 to 65: \<open>options.password || false\<close>, appended when truthy.\<close>

definition addPassword :: "constants \<Rightarrow> options \<Rightarrow> jsstring \<Rightarrow> error + jsstring" where
  "addPassword K opts uri =
     (let pw = (if ToBoolean (password opts) then password opts else JBool False)
      in if ToBoolean pw then
           (case encodeURIComponent pw of
              Inl e \<Rightarrow> Inl e
            | Inr enc \<Rightarrow> Inr (uri @ COLON K @ enc))
         else Inr uri)"

text \<open>
  Lines 68 to 80: the host with the login database, or with the \<open>authSource\<close> parameter.
  The operands of each concatenation are converted from left to right.
\<close>

definition addValidationSource :: "constants \<Rightarrow> options \<Rightarrow> jsstring \<Rightarrow> error + jsstring" where
  "addValidationSource K opts uri =
     (if ToBoolean (loginDatabase opts) \<and> loginDatabase opts \<noteq> JStr [] then
        (case stringOperand (host opts) of
           Inl e \<Rightarrow> Inl e
         | Inr h \<Rightarrow>
             (case stringOperand (loginDatabase opts) of
                Inl e \<Rightarrow> Inl e
              | Inr db \<Rightarrow> Inr (uri @ AT K @ h @ SLASH K @ db)))
      else if ToBoolean (authSource opts) \<and> authSource opts \<noteq> JStr [] then
        (case stringOperand (host opts) of
           Inl e \<Rightarrow> Inl e
         | Inr h \<Rightarrow>
             (case stringOperand (authSource opts) of
                Inl e \<Rightarrow> Inl e
              | Inr src \<Rightarrow>
                  Inr (uri @ AT K @ h @ BEGINNING_STRING K @ AUTH_SOURCE K
                         @ EQUAL_SIGN K @ src)))
      else Inr uri)"

text \<open>
  Lines 82 to 120. The result is the pair of \<open>this.connectionUri\<close> and the local
  \<open>clientOptions\<close>, which is still empty when line 119 appends it.
\<close>

definition addAuthMechanism ::
  "constants \<Rightarrow> options \<Rightarrow> jsstring \<Rightarrow> error + (jsstring \<times> jsstring)" where
  "addAuthMechanism K opts uri =
     (let clientOptions0 = [] in
      if ToBoolean (authMechanism opts) then
        (let authMechanismStr = AND K @ AUTH_MECHANISM K @ EQUAL_SIGN K in
         case tlsOptions opts of
           Some tls \<Rightarrow>
             (case tlsOptionsLoop K tls clientOptions0 of
                Inl e \<Rightarrow> Inl e
              | Inr clientOptions1 \<Rightarrow>
                  (case encodeURIComponent (authMechanism opts) of
                     Inl e \<Rightarrow> Inl e
                   | Inr enc \<Rightarrow> Inr (uri @ authMechanismStr @ enc, clientOptions1)))
         | None \<Rightarrow>
             if authMechanism opts = JStr (DEFAULT K)
                \<or> authMechanism opts = JStr (SCRAM_256 K)
                \<or> authMechanism opts = JStr (SCRAM_1 K)
                \<or> authMechanism opts = JStr (TLS K)
             then
               (case stringOperand (authMechanism opts) of
                  Inl e \<Rightarrow> Inl e
                | Inr text \<Rightarrow> Inr (uri @ authMechanismStr @ text, clientOptions0))
             else Inr (uri @ authMechanismStr @ DEFAULT K, clientOptions0))
      else Inr (uri @ clientOptions0, clientOptions0))"

text \<open>Lines 124 to 133: the client options are accumulated and appended once.\<close>

definition addClientOptions ::
  "constants \<Rightarrow> options \<Rightarrow> jsstring \<times> jsstring \<Rightarrow> error + jsstring" where
  "addClientOptions K opts st =
     (case st of (uri, clientOptions1) \<Rightarrow>
        (case (case clientOptions opts of
                 Some co \<Rightarrow> clientOptionsLoop K co clientOptions1
               | None \<Rightarrow> Inr clientOptions1) of
           Inl e \<Rightarrow> Inl e
         | Inr clientOptions2 \<Rightarrow> Inr (uri @ clientOptions2)))"

text \<open>
  The constructor up to line 134: the value it stores in \<open>this.connectionUri\<close>, or the
  exception it raises on the way. In line 46 the value is a string, which is its own
  \<open>ToString\<close>. Line 136 hands the string to the driver's \<open>MongoClient\<close>; that call is part
  of \<open>new_MongoManager\<close> below.
\<close>

definition "constructor" :: "constants \<Rightarrow> options \<Rightarrow> error + jsstring" where
  "constructor K opts =
     (if ToBoolean (connectionUri opts) \<and> typeof (connectionUri opts) = ''string'' then
        ToString (connectionUri opts)
      else
        (case encodeURIComponent (username opts) of
           Inl e \<Rightarrow> Inl e
         | Inr user \<Rightarrow>
             (case addPassword K opts (baseUri K opts user) of
                Inl e \<Rightarrow> Inl e
              | Inr uri1 \<Rightarrow>
                  (case addValidationSource K opts uri1 of
                     Inl e \<Rightarrow> Inl e
                   | Inr uri2 \<Rightarrow>
                       (case addAuthMechanism K opts uri2 of
                          Inl e \<Rightarrow> Inl e
                        | Inr st \<Rightarrow> addClientOptions K opts st)))))"

section \<open>The wrapper object and the driver it delegates to\<close>

text \<open>
  The driver (\<open>mongodb\<close>) is an external library: its client, database and collection
  objects are abstract, and each call the wrapper makes on them either throws or returns.
  \<open>client_close\<close> is the synchronous part of \<open>close()\<close>; the promise it returns is
  discarded by the wrapper.
\<close>

record ('c, 'd, 'k) driver =
  newMongoClient :: "jsstring \<Rightarrow> error + 'c"
  client_db :: "'c \<Rightarrow> jsval \<Rightarrow> error + 'd"
  db_collection :: "'d \<Rightarrow> jsval \<Rightarrow> error + 'k"
  client_close :: "'c \<Rightarrow> error + 'c"

text \<open>
  The fields of a \<open>MongoManager\<close> instance; \<open>_database\<close> and \<open>_collection\<close> are
  \<open>undefined\<close> (\<open>None\<close>) until their setters have run.
\<close>

record ('c, 'd, 'k) MongoManager =
  this_connectionUri :: jsstring
  this_client :: 'c
  this_database :: "'d option"
  this_collection :: "'k option"

text \<open>
  \<open>new MongoManager(options)\<close>: the constructor's string, then line 136, where the driver
  builds its client from it.
\<close>

definition new_MongoManager ::
  "constants \<Rightarrow> ('c, 'd, 'k) driver \<Rightarrow> options \<Rightarrow> error + ('c, 'd, 'k) MongoManager" where
  "new_MongoManager K drv opts =
     (case constructor K opts of
        Inl e \<Rightarrow> Inl e
      | Inr uri \<Rightarrow>
          (case newMongoClient drv uri of
             Inl e \<Rightarrow> Inl e
           | Inr c \<Rightarrow>
               Inr \<lparr> this_connectionUri = uri, this_client = c,
                     this_database = None, this_collection = None \<rparr>))"

text \<open>\<open>errorMessage(error)\<close>: \<open>throw new Error(error)\<close>.\<close>

definition errorMessage :: "error \<Rightarrow> error + 'a" where
  "errorMessage e = Inl (Error e)"

definition set_database ::
  "('c, 'd, 'k) driver \<Rightarrow> ('c, 'd, 'k) MongoManager \<Rightarrow> jsval
     \<Rightarrow> error + ('c, 'd, 'k) MongoManager" where
  "set_database drv this databaseName =
     (case client_db drv (this_client this) databaseName of
        Inl e \<Rightarrow> errorMessage e
      | Inr d \<Rightarrow> Inr (this\<lparr>this_database := Some d\<rparr>))"

text \<open>
  Reading \<open>.collection\<close> of an undefined \<open>_database\<close> raises a \<open>TypeError\<close>, which the
  \<open>catch\<close> block wraps like any exception of the driver.
\<close>

definition set_collection ::
  "('c, 'd, 'k) driver \<Rightarrow> ('c, 'd, 'k) MongoManager \<Rightarrow> jsval
     \<Rightarrow> error + ('c, 'd, 'k) MongoManager" where
  "set_collection drv this collectionName =
     (case this_database this of
        None \<Rightarrow> errorMessage TypeError
      | Some d \<Rightarrow>
          (case db_collection drv d collectionName of
             Inl e \<Rightarrow> errorMessage e
           | Inr k \<Rightarrow> Inr (this\<lparr>this_collection := Some k\<rparr>)))"

text \<open>\<open>closeConnection\<close> has no \<open>try\<close> block and keeps no field about the call.\<close>

definition closeConnection ::
  "('c, 'd, 'k) driver \<Rightarrow> ('c, 'd, 'k) MongoManager \<Rightarrow> error + ('c, 'd, 'k) MongoManager" where
  "closeConnection drv this =
     (case client_close drv (this_client this) of
        Inl e \<Rightarrow> Inl e
      | Inr c \<Rightarrow> Inr (this\<lparr>this_client := c\<rparr>))"

section \<open>Concrete inputs\<close>

text \<open>The options object \<open>{}\<close>: every property reads as \<open>undefined\<close>.\<close>

definition emptyOptions :: options where
  "emptyOptions =
     \<lparr> connectionUri = JUndefined, username = JUndefined, password = JUndefined,
       host = JUndefined, loginDatabase = JUndefined, authSource = JUndefined,
       svrString = JUndefined, authMechanism = JUndefined,
       tlsOptions = None, clientOptions = None \<rparr>"

text \<open>
  The string table with the two schemes the driver accepts and the certificate mechanism
  as the constructor's documentation spells it.
\<close>

definition exampleConstants :: constants where
  "exampleConstants =
     MONGOWRAPPER_CONSTANTS (str ''mongodb://'') (str ''mongodb+srv://'') (str ''MONGODB-X509'')"

text \<open>
  A driver none of whose calls throws: the client counts the \<open>close()\<close> calls it has
  received, a database is its name, a collection the pair of both names.
\<close>

definition quietDriver :: "(nat, jsval, jsval \<times> jsval) driver" where
  "quietDriver =
     \<lparr> newMongoClient = (\<lambda>uri. Inr 0),
       client_db = (\<lambda>c name. Inr name),
       db_collection = (\<lambda>d name. Inr (d, name)),
       client_close = (\<lambda>c. Inr (Suc c)) \<rparr>"

text \<open>
  Two values that are neither missing nor strings: \<open>Symbol()\<close>, which no conversion to a
  string accepts, and \<open>Buffer.from(text)\<close>, whose conversions both give its text.
\<close>

definition symbolValue :: jsval where
  "symbolValue = JOther TySymbol True (Inl TypeError) (Inl TypeError)"

definition bufferValue :: "jsstring \<Rightarrow> jsval" where
  "bufferValue text = JOther TyObject True (Inr text) (Inr text)"

section \<open>Predicates and inputs used in the statements\<close>

text \<open>
  The strings \<open>encodeURIComponent\<close> accepts: every surrogate code unit is part of a
  lead/trail pair (what \<open>String.prototype.isWellFormed\<close> tests).
\<close>

fun isWellFormed :: "jsstring \<Rightarrow> bool" where
  "isWellFormed [] = True"
| "isWellFormed (c # cs) =
     (if isTrailSurrogate c then False
      else if isLeadSurrogate c then
        (case cs of [] \<Rightarrow> False | d # ds \<Rightarrow> isTrailSurrogate d \<and> isWellFormed ds)
      else isWellFormed cs)"

text \<open>
  What cannot go wrong when a value is written into the connection string.
  \<open>encodable v\<close>: \<open>ToString\<close> returns a well-formed string, so that \<open>encodeURIComponent\<close>
  accepts \<open>v\<close>. \<open>concatenable v\<close>: \<open>v\<close> can be an operand of \<open>+\<close> with a string.
  \<open>tlsOptionWritable v\<close>: the test of lines 95 to 105, a string value is encoded and any
  other value concatenated.
\<close>

definition encodable :: "jsval \<Rightarrow> bool" where
  "encodable v = (case ToString v of Inl e \<Rightarrow> False | Inr s \<Rightarrow> isWellFormed s)"

definition concatenable :: "jsval \<Rightarrow> bool" where
  "concatenable v = (case stringOperand v of Inl e \<Rightarrow> False | Inr s \<Rightarrow> True)"

definition tlsOptionWritable :: "jsval \<Rightarrow> bool" where
  "tlsOptionWritable v = (if typeof v = ''string'' then encodable v else concatenable v)"

text \<open>The text lines 99 or 104 write for the value of a TLS option.\<close>

definition tlsOptionText :: "jsval \<Rightarrow> error + jsstring" where
  "tlsOptionText v = (if typeof v = ''string'' then encodeURIComponent v else stringOperand v)"

text \<open>The entries of an option table, none when the table is missing.\<close>

definition entries :: "jsobject option \<Rightarrow> jsobject" where
  "entries table = (case table of Some kvs \<Rightarrow> kvs | None \<Rightarrow> [])"

text \<open>
  Every value the constructor may write can be written: the user name, the password and
  the mechanism are encodable, the host, the login database and the \<open>authSource\<close> are
  concatenable, and so are the values of both option tables, each in its own way.
\<close>

definition convertible :: "options \<Rightarrow> bool" where
  "convertible opts \<longleftrightarrow>
     encodable (username opts) \<and> encodable (password opts)
     \<and> concatenable (host opts) \<and> concatenable (loginDatabase opts)
     \<and> concatenable (authSource opts) \<and> encodable (authMechanism opts)
     \<and> list_all (\<lambda>(k, v). tlsOptionWritable v) (entries (tlsOptions opts))
     \<and> list_all (\<lambda>(k, v). concatenable v) (entries (clientOptions opts))"

text \<open>The code units \<open>Encode\<close> can write: the unreserved ones and the percent sign.\<close>

definition escaped :: "16 word \<Rightarrow> bool" where
  "escaped c \<longleftrightarrow> uriUnreserved c \<or> c = 0x25"

text \<open>
  Certificate authentication: \<open>{username: 'bob', host: 'h:27017', loginDatabase: 'db1',
  authMechanism: 'MONGODB-X509', tlsOptions: {tls: true, tlsCAFile: '/etc/ca.pem'},
  clientOptions: {w: 'majority'}}\<close>.
\<close>

definition x509Options :: options where
  "x509Options =
     emptyOptions\<lparr>username := JStr (str ''bob''), host := JStr (str ''h:27017''),
       loginDatabase := JStr (str ''db1''), authMechanism := JStr (str ''MONGODB-X509''),
       tlsOptions := Some [(str ''tls'', JBool True), (str ''tlsCAFile'', JStr (str ''/etc/ca.pem''))],
       clientOptions := Some [(str ''w'', JStr (str ''majority''))]\<rparr>"

section \<open>Percent-decoding, as the specification uses it\<close>







section \<open>Evaluation rules\<close>

lemmas encode_defs =
  str_def uriUnreserved_def isTrailSurrogate_def isLeadSurrogate_def utf8_octets_def
  percentEscape_def hexDigit_def UTF16SurrogatePairToCodePoint_def encodeURIComponent_def

lemmas constructor_defs =
  MONGOWRAPPER_CONSTANTS_def baseUri_def addPassword_def addValidationSource_def
  addAuthMechanism_def addClientOptions_def constructor_def

lemmas example_defs =
  emptyOptions_def exampleConstants_def quietDriver_def x509Options_def symbolValue_def
  bufferValue_def

lemmas proviso_defs =
  encodable_def concatenable_def tlsOptionWritable_def tlsOptionText_def entries_def
  convertible_def


section \<open>Code units and the output of \<open>Encode\<close>\<close>

lemma uriUnreserved_unat:
  "uriUnreserved c \<longleftrightarrow>
     (65 \<le> unat c \<and> unat c \<le> 90) \<or> (97 \<le> unat c \<and> unat c \<le> 122) \<or> (48 \<le> unat c \<and> unat c \<le> 57)
     \<or> unat c = 45 \<or> unat c = 95 \<or> unat c = 46 \<or> unat c = 33 \<or> unat c = 126
     \<or> unat c = 42 \<or> unat c = 39 \<or> unat c = 40 \<or> unat c = 41"
  by (simp add: uriUnreserved_def word_le_nat_alt word_unat_eq_iff)

lemma isLeadSurrogate_unat: "isLeadSurrogate c \<longleftrightarrow> 55296 \<le> unat c \<and> unat c \<le> 56319"
  by (simp add: isLeadSurrogate_def word_le_nat_alt)

lemma isTrailSurrogate_unat: "isTrailSurrogate c \<longleftrightarrow> 56320 \<le> unat c \<and> unat c \<le> 57343"
  by (simp add: isTrailSurrogate_def word_le_nat_alt)

lemma unreserved_not_surrogate: "uriUnreserved c \<Longrightarrow> \<not> isTrailSurrogate c \<and> \<not> isLeadSurrogate c"
  unfolding uriUnreserved_unat isLeadSurrogate_unat isTrailSurrogate_unat by arith

lemma Encode_error: "Encode s = Inl e \<Longrightarrow> e = URIError"
proof (induction s arbitrary: e rule: Encode.induct)
  case 1
  then show ?case by simp
next
  case (2 c cs)
  show ?case
  proof (cases "uriUnreserved c")
    case True
    with 2 show ?thesis by (simp split: sum.splits)
  next
    case nu: False
    show ?thesis
    proof (cases "isTrailSurrogate c")
      case True
      with nu 2 show ?thesis by simp
    next
      case nt: False
      show ?thesis
      proof (cases "isLeadSurrogate c")
        case True
        with nu nt 2 show ?thesis by (simp split: list.splits if_splits sum.splits)
      next
        case False
        with nu nt 2 show ?thesis by (simp split: sum.splits)
      qed
    qed
  qed
qed

lemma Encode_wellFormed: "(\<exists>r. Encode s = Inr r) \<longleftrightarrow> isWellFormed s"
proof (induction s rule: Encode.induct)
  case 1
  then show ?case by simp
next
  case (2 c cs)
  show ?case
  proof (cases "uriUnreserved c")
    case True
    with 2 unreserved_not_surrogate[OF True] show ?thesis by (cases "Encode cs") auto
  next
    case nu: False
    show ?thesis
    proof (cases "isTrailSurrogate c")
      case True
      with nu 2 show ?thesis by simp
    next
      case nt: False
      show ?thesis
      proof (cases "isLeadSurrogate c")
        case True
        with nu nt 2 show ?thesis by (auto split: list.splits if_splits sum.splits)
      next
        case False
        with nu nt 2 show ?thesis by (cases "Encode cs") auto
      qed
    qed
  qed
qed

lemma unat_unit_of_nat: "n < 65536 \<Longrightarrow> unat (of_nat n :: 16 word) = n"
  by (rule of_nat_inverse[OF refl]) simp

lemma hexDigit_unat:
  assumes "d < 16"
  shows "unat (hexDigit d) = (if d < 10 then 48 + d else 55 + d)"
proof (cases "d < 10")
  case True
  then have "unat (of_nat (48 + d) :: 16 word) = 48 + d"
    by (intro unat_unit_of_nat) simp
  with True show ?thesis by (simp only: hexDigit_def if_True)
next
  case False
  with assms have "unat (of_nat (65 + (d - 10)) :: 16 word) = 65 + (d - 10)"
    by (intro unat_unit_of_nat) simp
  with False show ?thesis by (simp only: hexDigit_def if_False)
qed

lemma hexDigit_unreserved: "d < 16 \<Longrightarrow> uriUnreserved (hexDigit d)"
  unfolding uriUnreserved_unat by (simp add: hexDigit_unat)

lemma utf8_octets_bound: "cp < 0x110000 \<Longrightarrow> b \<in> set (utf8_octets cp) \<Longrightarrow> b < 256"
  unfolding utf8_octets_def by (auto split: if_splits)

lemma pair_bound:
  "isLeadSurrogate c \<Longrightarrow> isTrailSurrogate d \<Longrightarrow> UTF16SurrogatePairToCodePoint c d < 0x110000"
  unfolding isLeadSurrogate_unat isTrailSurrogate_unat UTF16SurrogatePairToCodePoint_def by arith

lemma unit_bound: "unat (c :: 16 word) < 0x110000"
  using unsigned_less[of c, where 'a = nat] by simp

lemma percentEscape_escaped: "b < 256 \<Longrightarrow> c \<in> set (percentEscape b) \<Longrightarrow> escaped c"
  by (auto simp: percentEscape_def escaped_def intro!: hexDigit_unreserved)

lemma escapeCodePoint_escaped:
  "cp < 0x110000 \<Longrightarrow> c \<in> set (concat (map percentEscape (utf8_octets cp))) \<Longrightarrow> escaped c"
  by (auto dest: utf8_octets_bound percentEscape_escaped)

lemma Encode_escaped: "Encode s = Inr r \<Longrightarrow> c \<in> set r \<Longrightarrow> escaped c"
proof (induction s arbitrary: r rule: Encode.induct)
  case 1
  then show ?case by simp
next
  case (2 u us)
  show ?case
  proof (cases "uriUnreserved u")
    case True
    with 2 show ?thesis by (auto simp: escaped_def split: sum.splits)
  next
    case nu: False
    show ?thesis
    proof (cases "isTrailSurrogate u")
      case True
      with nu 2 show ?thesis by simp
    next
      case nt: False
      show ?thesis
      proof (cases "isLeadSurrogate u")
        case True
        with nu nt 2 show ?thesis
          by (auto simp del: set_concat split: list.splits if_splits sum.splits
                   dest: escapeCodePoint_escaped[OF pair_bound])
      next
        case False
        with nu nt 2 show ?thesis
          by (auto simp del: set_concat split: sum.splits dest: escapeCodePoint_escaped[OF unit_bound])
      qed
    qed
  qed
qed

section \<open>Substrings across a separator\<close>

lemma sublist_split_at:
  assumes "c \<notin> set n"
  shows "sublist n (xs @ c # ys) \<longleftrightarrow> sublist n xs \<or> sublist n ys"
proof
  assume "sublist n (xs @ c # ys)"
  then obtain ps ss where eq: "xs @ c # ys = ps @ n @ ss"
    by (auto simp: sublist_def)
  then consider us where "xs = ps @ us" "us @ c # ys = n @ ss"
    | us where "xs @ us = ps" "c # ys = us @ n @ ss"
    by (auto simp: append_eq_append_conv2)
  then show "sublist n xs \<or> sublist n ys"
  proof cases
    case 1
    from 1(2) consider vs where "us = n @ vs" | vs where "us @ vs = n" "c # ys = vs @ ss"
      by (auto simp: append_eq_append_conv2)
    then show ?thesis
    proof cases
      case 1
      with \<open>xs = ps @ us\<close> show ?thesis by (auto simp: sublist_def)
    next
      case 2
      show ?thesis
      proof (cases vs)
        case Nil
        with 2 \<open>xs = ps @ us\<close> show ?thesis by auto
      next
        case (Cons v vs')
        with 2 assms show ?thesis by auto
      qed
    qed
  next
    case 2
    show ?thesis
    proof (cases us)
      case Nil
      with 2 assms show ?thesis by (cases n) auto
    next
      case (Cons u us')
      with 2 show ?thesis by (auto simp: sublist_def)
    qed
  qed
next
  assume "sublist n xs \<or> sublist n ys"
  then show "sublist n (xs @ c # ys)"
    by (auto simp: sublist_append sublist_Cons_right)
qed

section \<open>Each step of the constructor appends to the string built so far\<close>

lemma tlsOptionsLoop_step:
  "tlsOptionsLoop K ((k, v) # rest) acc =
     (case tlsOptionText v of
        Inl e \<Rightarrow> Inl e
      | Inr w \<Rightarrow> tlsOptionsLoop K rest (acc @ AND K @ k @ EQUAL_SIGN K @ w))"
  by (simp add: tlsOptionText_def)

lemma clientOptionsLoop_acc:
  "clientOptionsLoop K co acc =
     (case clientOptionsLoop K co [] of Inl e \<Rightarrow> Inl e | Inr s \<Rightarrow> Inr (acc @ s))"
proof (induction co arbitrary: acc)
  case Nil
  show ?case by simp
next
  case (Cons kv co)
  obtain k v where kv: "kv = (k, v)" by (cases kv)
  show ?case
  proof (cases "stringOperand v")
    case (Inl e)
    then show ?thesis unfolding kv by simp
  next
    case (Inr w)
    have "clientOptionsLoop K (kv # co) acc
            = clientOptionsLoop K co (acc @ AND K @ k @ EQUAL_SIGN K @ w)"
      unfolding kv using Inr by simp
    moreover have "clientOptionsLoop K (kv # co) []
            = clientOptionsLoop K co (AND K @ k @ EQUAL_SIGN K @ w)"
      unfolding kv using Inr by simp
    ultimately show ?thesis
      using Cons.IH[of "acc @ AND K @ k @ EQUAL_SIGN K @ w"]
            Cons.IH[of "AND K @ k @ EQUAL_SIGN K @ w"]
      by (simp split: sum.splits)
  qed
qed

lemma tlsOptionsLoop_acc:
  "tlsOptionsLoop K t acc =
     (case tlsOptionsLoop K t [] of Inl e \<Rightarrow> Inl e | Inr s \<Rightarrow> Inr (acc @ s))"
proof (induction t arbitrary: acc)
  case Nil
  show ?case by simp
next
  case (Cons kv t)
  obtain k v where kv: "kv = (k, v)" by (cases kv)
  show ?case
  proof (cases "tlsOptionText v")
    case (Inl e)
    then show ?thesis unfolding kv tlsOptionsLoop_step by simp
  next
    case (Inr w)
    have "tlsOptionsLoop K (kv # t) acc
            = tlsOptionsLoop K t (acc @ AND K @ k @ EQUAL_SIGN K @ w)"
      unfolding kv tlsOptionsLoop_step using Inr by simp
    moreover have "tlsOptionsLoop K (kv # t) []
            = tlsOptionsLoop K t (AND K @ k @ EQUAL_SIGN K @ w)"
      unfolding kv tlsOptionsLoop_step using Inr by simp
    ultimately show ?thesis
      using Cons.IH[of "acc @ AND K @ k @ EQUAL_SIGN K @ w"]
            Cons.IH[of "AND K @ k @ EQUAL_SIGN K @ w"]
      by (simp split: sum.splits)
  qed
qed

lemma addPassword_acc:
  "addPassword K opts uri =
     (case addPassword K opts [] of Inl e \<Rightarrow> Inl e | Inr p \<Rightarrow> Inr (uri @ p))"
  by (simp add: addPassword_def Let_def split: sum.splits)

lemma addValidationSource_acc:
  "addValidationSource K opts uri =
     (case addValidationSource K opts [] of Inl e \<Rightarrow> Inl e | Inr v \<Rightarrow> Inr (uri @ v))"
  by (simp add: addValidationSource_def split: sum.splits)

lemma addAuthMechanism_acc:
  "addAuthMechanism K opts uri =
     (case addAuthMechanism K opts [] of Inl e \<Rightarrow> Inl e | Inr (a, c) \<Rightarrow> Inr (uri @ a, c))"
proof (cases "ToBoolean (authMechanism opts)")
  case False
  then show ?thesis by (simp add: addAuthMechanism_def)
next
  case True
  show ?thesis
  proof (cases "tlsOptions opts")
    case None
    with True show ?thesis
      by (cases "stringOperand (authMechanism opts)")
         (simp_all add: addAuthMechanism_def Let_def)
  next
    case (Some t)
    show ?thesis
    proof (cases "tlsOptionsLoop K t []")
      case (Inl e)
      with True Some show ?thesis by (simp add: addAuthMechanism_def Let_def)
    next
      case (Inr c)
      with True Some show ?thesis
        by (cases "encodeURIComponent (authMechanism opts)")
           (simp_all add: addAuthMechanism_def Let_def)
    qed
  qed
qed

lemma addClientOptions_acc:
  "addClientOptions K opts (uri, c) =
     (case addClientOptions K opts ([], []) of Inl e \<Rightarrow> Inl e | Inr co \<Rightarrow> Inr (uri @ c @ co))"
proof (cases "clientOptions opts")
  case None
  then show ?thesis by (simp add: addClientOptions_def)
next
  case (Some co)
  then show ?thesis
    using clientOptionsLoop_acc[of K co c]
    by (simp add: addClientOptions_def split: sum.splits)
qed

lemma constructor_unfolded:
  assumes "\<not> (ToBoolean (connectionUri opts) \<and> typeof (connectionUri opts) = ''string'')"
  shows "constructor K opts =
     (case encodeURIComponent (username opts) of
        Inl e \<Rightarrow> Inl e
      | Inr user \<Rightarrow>
          (case addPassword K opts [] of
             Inl e \<Rightarrow> Inl e
           | Inr p \<Rightarrow>
               (case addValidationSource K opts [] of
                  Inl e \<Rightarrow> Inl e
                | Inr v \<Rightarrow>
                    (case addAuthMechanism K opts [] of
                       Inl e \<Rightarrow> Inl e
                     | Inr (a, c) \<Rightarrow>
                         (case addClientOptions K opts ([], []) of
                            Inl e \<Rightarrow> Inl e
                          | Inr co \<Rightarrow>
                              Inr (baseUri K opts user @ p @ v @ a @ c @ co))))))"
proof -
  have c0: "constructor K opts =
     (case encodeURIComponent (username opts) of
        Inl e \<Rightarrow> Inl e
      | Inr user \<Rightarrow>
          (case addPassword K opts (baseUri K opts user) of
             Inl e \<Rightarrow> Inl e
           | Inr uri1 \<Rightarrow>
               (case addValidationSource K opts uri1 of
                  Inl e \<Rightarrow> Inl e
                | Inr uri2 \<Rightarrow>
                    (case addAuthMechanism K opts uri2 of
                       Inl e \<Rightarrow> Inl e
                     | Inr st \<Rightarrow> addClientOptions K opts st))))"
    using assms unfolding constructor_def by (cases "ToBoolean (connectionUri opts)") simp_all
  show ?thesis
  proof (cases "encodeURIComponent (username opts)")
    case (Inl e)
    then show ?thesis by (simp add: c0)
  next
    case user: (Inr user)
    define b where "b = baseUri K opts user"
    show ?thesis
    proof (cases "addPassword K opts []")
      case (Inl e)
      with user show ?thesis
        by (simp add: c0 addPassword_acc[of K opts "baseUri K opts user"])
    next
      case p: (Inr p)
      have 1: "addPassword K opts (baseUri K opts user) = Inr (b @ p)"
        by (simp add: addPassword_acc[of K opts "baseUri K opts user"] p b_def)
      show ?thesis
      proof (cases "addValidationSource K opts []")
        case (Inl e)
        with user p 1 show ?thesis
          by (simp add: c0 addValidationSource_acc[of K opts "b @ p"])
      next
        case v: (Inr v)
        have 2: "addValidationSource K opts (b @ p) = Inr (b @ p @ v)"
          by (simp add: addValidationSource_acc[of K opts "b @ p"] v)
        show ?thesis
        proof (cases "addAuthMechanism K opts []")
          case (Inl e)
          with user p v 1 2 show ?thesis
            by (simp add: c0 addAuthMechanism_acc[of K opts "b @ p @ v"])
        next
          case (Inr ac)
          obtain a c where ac: "ac = (a, c)" by (cases ac)
          have 3: "addAuthMechanism K opts (b @ p @ v) = Inr (b @ p @ v @ a, c)"
            by (simp add: addAuthMechanism_acc[of K opts "b @ p @ v"] Inr ac)
          have 4: "addClientOptions K opts (b @ p @ v @ a, c)
                     = (case addClientOptions K opts ([], []) of
                          Inl e \<Rightarrow> Inl e
                        | Inr co \<Rightarrow> Inr (b @ p @ v @ a @ c @ co))"
            by (simp add: addClientOptions_acc[of K opts "b @ p @ v @ a" c] cong: sum.case_cong)
          show ?thesis
            using user p v 1 2 3 4 Inr ac
            by (cases "addClientOptions K opts ([], [])") (simp_all add: c0 b_def)
        qed
      qed
    qed
  qed
qed

lemma constructor_segments:
  assumes "\<not> (ToBoolean (connectionUri opts) \<and> typeof (connectionUri opts) = ''string'')"
  shows "constructor K opts = Inr u \<longleftrightarrow>
         (\<exists>user p v a c co.
            encodeURIComponent (username opts) = Inr user
            \<and> addPassword K opts [] = Inr p
            \<and> addValidationSource K opts [] = Inr v
            \<and> addAuthMechanism K opts [] = Inr (a, c)
            \<and> addClientOptions K opts ([], []) = Inr co
            \<and> u = baseUri K opts user @ p @ v @ a @ c @ co)"
  unfolding constructor_unfolded[OF assms]
  by (auto split: sum.splits prod.splits)

section \<open>When the constructor returns\<close>

lemma typeof_string: "typeof v = ''string'' \<longleftrightarrow> (\<exists>s. v = JStr s)"
proof (cases v)
  case (JOther t b s c)
  then show ?thesis by (cases t) simp_all
qed simp_all

lemma encodable_iff: "encodable v \<longleftrightarrow> (\<exists>r. encodeURIComponent v = Inr r)"
  by (cases "ToString v") (simp_all add: encodable_def encodeURIComponent_def Encode_wellFormed)

lemma concatenable_iff: "concatenable v \<longleftrightarrow> (\<exists>s. stringOperand v = Inr s)"
  by (cases "stringOperand v") (simp_all add: concatenable_def)

lemma tlsOptionWritable_iff: "tlsOptionWritable v \<longleftrightarrow> (\<exists>s. tlsOptionText v = Inr s)"
  by (simp add: tlsOptionWritable_def tlsOptionText_def encodable_iff concatenable_iff)

lemma tlsOptionsLoop_succeeds:
  "list_all (\<lambda>(k, v). tlsOptionWritable v) t \<Longrightarrow> \<exists>r. tlsOptionsLoop K t acc = Inr r"
proof (induction t arbitrary: acc)
  case Nil
  then show ?case by simp
next
  case (Cons kv t)
  obtain k v where kv: "kv = (k, v)" by (cases kv)
  from Cons.prems have "tlsOptionWritable v"
    and rest: "list_all (\<lambda>(k, v). tlsOptionWritable v) t"
    by (simp_all add: kv)
  then obtain w where w: "tlsOptionText v = Inr w"
    unfolding tlsOptionWritable_iff by blast
  show ?case unfolding kv tlsOptionsLoop_step using w Cons.IH[OF rest] by simp
qed

lemma clientOptionsLoop_succeeds:
  "list_all (\<lambda>(k, v). concatenable v) co \<Longrightarrow> \<exists>r. clientOptionsLoop K co acc = Inr r"
proof (induction co arbitrary: acc)
  case Nil
  then show ?case by simp
next
  case (Cons kv co)
  obtain k v where kv: "kv = (k, v)" by (cases kv)
  from Cons.prems have "concatenable v"
    and rest: "list_all (\<lambda>(k, v). concatenable v) co"
    by (simp_all add: kv)
  then obtain w where w: "stringOperand v = Inr w"
    unfolding concatenable_iff by blast
  show ?case unfolding kv using w Cons.IH[OF rest] by simp
qed

lemma addPassword_succeeds:
  assumes "encodable (password opts)"
  shows "\<exists>p. addPassword K opts uri = Inr p"
proof -
  from assms obtain enc where "encodeURIComponent (password opts) = Inr enc"
    unfolding encodable_iff by blast
  then show ?thesis by (simp add: addPassword_def Let_def)
qed

lemma addValidationSource_succeeds:
  assumes "concatenable (host opts)" and "concatenable (loginDatabase opts)"
    and "concatenable (authSource opts)"
  shows "\<exists>v. addValidationSource K opts uri = Inr v"
proof -
  from assms obtain h db src where
    "stringOperand (host opts) = Inr h" "stringOperand (loginDatabase opts) = Inr db"
    "stringOperand (authSource opts) = Inr src"
    unfolding concatenable_iff by blast
  then show ?thesis by (simp add: addValidationSource_def)
qed

lemma addAuthMechanism_succeeds:
  assumes "encodable (authMechanism opts)"
    and "list_all (\<lambda>(k, v). tlsOptionWritable v) (entries (tlsOptions opts))"
  shows "\<exists>st. addAuthMechanism K opts uri = Inr st"
proof (cases "ToBoolean (authMechanism opts)")
  case False
  then show ?thesis by (simp add: addAuthMechanism_def)
next
  case True
  show ?thesis
  proof (cases "tlsOptions opts")
    case None
    show ?thesis
    proof (cases "authMechanism opts = JStr (DEFAULT K) \<or> authMechanism opts = JStr (SCRAM_256 K)
                    \<or> authMechanism opts = JStr (SCRAM_1 K) \<or> authMechanism opts = JStr (TLS K)")
      case recognized: True
      then obtain s where "authMechanism opts = JStr s" by blast
      then have "stringOperand (authMechanism opts) = Inr s" by simp
      with True None recognized show ?thesis
        by (simp add: addAuthMechanism_def Let_def)
    next
      case False
      with True None show ?thesis by (simp add: addAuthMechanism_def Let_def)
    qed
  next
    case (Some t)
    with assms(2) have "list_all (\<lambda>(k, v). tlsOptionWritable v) t" by (simp add: entries_def)
    from tlsOptionsLoop_succeeds[OF this] obtain c where c: "tlsOptionsLoop K t [] = Inr c"
      by blast
    from assms(1) obtain enc where enc: "encodeURIComponent (authMechanism opts) = Inr enc"
      unfolding encodable_iff by blast
    show ?thesis using True Some c enc by (simp add: addAuthMechanism_def Let_def)
  qed
qed

lemma addClientOptions_empty:
  "addClientOptions K opts ([], []) = clientOptionsLoop K (entries (clientOptions opts)) []"
  by (cases "clientOptions opts")
     (simp_all add: addClientOptions_def entries_def split: sum.splits)

lemma addClientOptions_succeeds:
  assumes "list_all (\<lambda>(k, v). concatenable v) (entries (clientOptions opts))"
  shows "\<exists>co. addClientOptions K opts ([], []) = Inr co"
  unfolding addClientOptions_empty by (rule clientOptionsLoop_succeeds[OF assms])

lemma constructor_succeeds:
  assumes "convertible opts"
  shows "\<exists>u. constructor K opts = Inr u"
proof (cases "ToBoolean (connectionUri opts) \<and> typeof (connectionUri opts) = ''string''")
  case True
  then obtain s where "connectionUri opts = JStr s" unfolding typeof_string by blast
  with True show ?thesis by (simp add: constructor_def)
next
  case False
  from assms have 1: "encodable (username opts)" and 2: "encodable (password opts)"
    and 3: "concatenable (host opts)" "concatenable (loginDatabase opts)"
           "concatenable (authSource opts)"
    and 4: "encodable (authMechanism opts)"
           "list_all (\<lambda>(k, v). tlsOptionWritable v) (entries (tlsOptions opts))"
    and 5: "list_all (\<lambda>(k, v). concatenable v) (entries (clientOptions opts))"
    by (simp_all add: convertible_def)
  from 1 obtain user where "encodeURIComponent (username opts) = Inr user"
    unfolding encodable_iff by blast
  moreover from addPassword_succeeds[OF 2] obtain p
    where "addPassword K opts [] = Inr p" ..
  moreover from addValidationSource_succeeds[OF 3] obtain v
    where "addValidationSource K opts [] = Inr v" ..
  moreover from addAuthMechanism_succeeds[OF 4] obtain st
    where "addAuthMechanism K opts [] = Inr st" ..
  moreover from addClientOptions_succeeds[OF 5] obtain co
    where "addClientOptions K opts ([], []) = Inr co" ..
  ultimately show ?thesis
    unfolding constructor_unfolded[OF False] by (cases st) simp
qed

section \<open>Further facts about single steps\<close>

lemma Encode_undefined: "Encode (str ''undefined'') = Inr (str ''undefined'')"
  by (simp add: encode_defs)

lemma encodeURIComponent_undefined:
  "encodeURIComponent JUndefined = Inr (str ''undefined'')"
  by (simp add: encodeURIComponent_def Encode_undefined)

lemma addAuthMechanism_tls:
  assumes "ToBoolean (authMechanism opts)" and "tlsOptions opts = Some tls"
    and "addAuthMechanism K opts [] = Inr (a, c)"
  shows "\<exists>enc. encodeURIComponent (authMechanism opts) = Inr enc
           \<and> tlsOptionsLoop K tls [] = Inr c
           \<and> a = AND K @ AUTH_MECHANISM K @ EQUAL_SIGN K @ enc"
  using assms by (auto simp: addAuthMechanism_def Let_def split: sum.splits)

section \<open>What each step reads\<close>

lemma baseUri_cong:
  assumes "svrString o1 = svrString o2"
  shows "baseUri K o1 = baseUri K o2"
  unfolding baseUri_def fun_eq_iff assms by simp

lemma addPassword_cong:
  assumes "password o1 = password o2"
  shows "addPassword K o1 = addPassword K o2"
  unfolding addPassword_def fun_eq_iff assms by simp

lemma addValidationSource_cong:
  assumes "stringOperand (host o1) = stringOperand (host o2)"
    and "loginDatabase o1 = loginDatabase o2" and "authSource o1 = authSource o2"
  shows "addValidationSource K o1 = addValidationSource K o2"
  unfolding addValidationSource_def fun_eq_iff assms by simp

lemma addAuthMechanism_cong:
  assumes "authMechanism o1 = authMechanism o2" and "tlsOptions o1 = tlsOptions o2"
  shows "addAuthMechanism K o1 = addAuthMechanism K o2"
  unfolding addAuthMechanism_def fun_eq_iff assms by simp

lemma addClientOptions_cong:
  assumes "clientOptions o1 = clientOptions o2"
  shows "addClientOptions K o1 = addClientOptions K o2"
  unfolding addClientOptions_def fun_eq_iff assms by simp

lemma constructor_cong:
  assumes "connectionUri o1 = connectionUri o2"
    and "encodeURIComponent (username o1) = encodeURIComponent (username o2)"
    and "svrString o1 = svrString o2" and "password o1 = password o2"
    and "stringOperand (host o1) = stringOperand (host o2)"
    and "loginDatabase o1 = loginDatabase o2" and "authSource o1 = authSource o2"
    and "authMechanism o1 = authMechanism o2" and "tlsOptions o1 = tlsOptions o2"
    and "clientOptions o1 = clientOptions o2"
  shows "constructor K o1 = constructor K o2"
  unfolding constructor_def assms(1,2) baseUri_cong[OF assms(3)] addPassword_cong[OF assms(4)]
    addValidationSource_cong[OF assms(5,6,7)] addAuthMechanism_cong[OF assms(8,9)]
    addClientOptions_cong[OF assms(10)]
  by (rule refl)


lemma constructor_without_username:
  assumes "constructor K opts = Inr u"
  shows "\<exists>u'. constructor K (opts\<lparr>username := JUndefined\<rparr>) = Inr u'"
proof (cases "ToBoolean (connectionUri opts) \<and> typeof (connectionUri opts) = ''string''")
  case True
  then have "constructor K (opts\<lparr>username := JUndefined\<rparr>) = constructor K opts"
    by (simp add: constructor_def)
  with assms show ?thesis by simp
next
  case False
  then have ne: "\<not> (ToBoolean (connectionUri (opts\<lparr>username := JUndefined\<rparr>))
                    \<and> typeof (connectionUri (opts\<lparr>username := JUndefined\<rparr>)) = ''string'')"
    by simp
  from assms obtain user p v a c co where
    p: "addPassword K opts [] = Inr p" and
    v: "addValidationSource K opts [] = Inr v" and
    a: "addAuthMechanism K opts [] = Inr (a, c)" and
    co: "addClientOptions K opts ([], []) = Inr co"
    unfolding constructor_segments[OF False] by blast
  have "encodeURIComponent (username (opts\<lparr>username := JUndefined\<rparr>)) = Inr (str ''undefined'')"
    by (simp add: encodeURIComponent_undefined)
  moreover have "addPassword K (opts\<lparr>username := JUndefined\<rparr>) [] = Inr p"
    using p addPassword_cong[of "opts\<lparr>username := JUndefined\<rparr>" opts K] by simp
  moreover have "addValidationSource K (opts\<lparr>username := JUndefined\<rparr>) [] = Inr v"
    using v addValidationSource_cong[of "opts\<lparr>username := JUndefined\<rparr>" opts K] by simp
  moreover have "addAuthMechanism K (opts\<lparr>username := JUndefined\<rparr>) [] = Inr (a, c)"
    using a addAuthMechanism_cong[of "opts\<lparr>username := JUndefined\<rparr>" opts K] by simp
  moreover have "addClientOptions K (opts\<lparr>username := JUndefined\<rparr>) ([], []) = Inr co"
    using co addClientOptions_cong[of "opts\<lparr>username := JUndefined\<rparr>" opts K] by simp
  ultimately show ?thesis
    unfolding constructor_segments[OF ne] by blast
qed

lemma addValidationSource_without_host:
  assumes "addValidationSource K opts [] = Inr v"
  shows "\<exists>v'. addValidationSource K (opts\<lparr>host := JUndefined\<rparr>) [] = Inr v'"
proof (cases "ToBoolean (loginDatabase opts) \<and> loginDatabase opts \<noteq> JStr []")
  case True
  with assms obtain db where "stringOperand (loginDatabase opts) = Inr db"
    by (auto simp: addValidationSource_def split: sum.splits)
  with True show ?thesis by (simp add: addValidationSource_def)
next
  case no_login: False
  show ?thesis
  proof (cases "ToBoolean (authSource opts) \<and> authSource opts \<noteq> JStr []")
    case True
    with no_login assms obtain src where "stringOperand (authSource opts) = Inr src"
      by (auto simp: addValidationSource_def split: sum.splits)
    with no_login True show ?thesis by (auto simp add: addValidationSource_def)
  next
    case False
    with no_login show ?thesis by (auto simp add: addValidationSource_def)
  qed
qed

lemma constructor_without_host:
  assumes "constructor K opts = Inr u"
  shows "\<exists>u'. constructor K (opts\<lparr>host := JUndefined\<rparr>) = Inr u'"
proof (cases "ToBoolean (connectionUri opts) \<and> typeof (connectionUri opts) = ''string''")
  case True
  then have "constructor K (opts\<lparr>host := JUndefined\<rparr>) = constructor K opts"
    by (simp add: constructor_def)
  with assms show ?thesis by simp
next
  case False
  then have ne: "\<not> (ToBoolean (connectionUri (opts\<lparr>host := JUndefined\<rparr>))
                    \<and> typeof (connectionUri (opts\<lparr>host := JUndefined\<rparr>)) = ''string'')"
    by simp
  from assms obtain user p v a c co where
    user: "encodeURIComponent (username opts) = Inr user" and
    p: "addPassword K opts [] = Inr p" and
    v: "addValidationSource K opts [] = Inr v" and
    a: "addAuthMechanism K opts [] = Inr (a, c)" and
    co: "addClientOptions K opts ([], []) = Inr co"
    unfolding constructor_segments[OF False] by blast
  from addValidationSource_without_host[OF v] obtain v' where
    "addValidationSource K (opts\<lparr>host := JUndefined\<rparr>) [] = Inr v'" ..
  moreover have "encodeURIComponent (username (opts\<lparr>host := JUndefined\<rparr>)) = Inr user"
    using user by simp
  moreover have "addPassword K (opts\<lparr>host := JUndefined\<rparr>) [] = Inr p"
    using p addPassword_cong[of "opts\<lparr>host := JUndefined\<rparr>" opts K] by simp
  moreover have "addAuthMechanism K (opts\<lparr>host := JUndefined\<rparr>) [] = Inr (a, c)"
    using a addAuthMechanism_cong[of "opts\<lparr>host := JUndefined\<rparr>" opts K] by simp
  moreover have "addClientOptions K (opts\<lparr>host := JUndefined\<rparr>) ([], []) = Inr co"
    using co addClientOptions_cong[of "opts\<lparr>host := JUndefined\<rparr>" opts K] by simp
  ultimately show ?thesis
    unfolding constructor_segments[OF ne] by blast
qed
section \<open>Decoding what \<open>Encode\<close> wrote\<close>




















section \<open>Where a given text cannot occur\<close>

lemma constants_fields:
  "MONGOSERVER (MONGOWRAPPER_CONSTANTS direct svr x509) = direct"
  "MONGOSERVER_SVR (MONGOWRAPPER_CONSTANTS direct svr x509) = svr"
  "COLON (MONGOWRAPPER_CONSTANTS direct svr x509) = [0x3A]"
  "AT (MONGOWRAPPER_CONSTANTS direct svr x509) = [0x40]"
  "SLASH (MONGOWRAPPER_CONSTANTS direct svr x509) = [0x2F]"
  "BEGINNING_STRING (MONGOWRAPPER_CONSTANTS direct svr x509) = [0x2F, 0x3F]"
  "AUTH_SOURCE (MONGOWRAPPER_CONSTANTS direct svr x509) = str ''authSource''"
  "AUTH_MECHANISM (MONGOWRAPPER_CONSTANTS direct svr x509) = str ''authMechanism''"
  "EQUAL_SIGN (MONGOWRAPPER_CONSTANTS direct svr x509) = [0x3D]"
  "AND (MONGOWRAPPER_CONSTANTS direct svr x509) = [0x26]"
  "DEFAULT (MONGOWRAPPER_CONSTANTS direct svr x509) = str ''DEFAULT''"
  "SCRAM_256 (MONGOWRAPPER_CONSTANTS direct svr x509) = str ''SCRAM-SHA-256''"
  "SCRAM_1 (MONGOWRAPPER_CONSTANTS direct svr x509) = str ''SCRAM-SHA-1''"
  "TLS (MONGOWRAPPER_CONSTANTS direct svr x509) = x509"
  by (simp_all add: MONGOWRAPPER_CONSTANTS_def str_def)

lemma sublist_single: "sublist [c] xs \<longleftrightarrow> c \<in> set xs"
  by (induction xs) (auto simp: sublist_Cons_right prefix_Cons)

lemma not_sublist_missing_char: "c \<in> set n \<Longrightarrow> c \<notin> set xs \<Longrightarrow> \<not> sublist n xs"
  using set_mono_sublist by fastforce

lemma not_sublist_joined:
  assumes "c \<notin> set n" and "\<not> sublist n xs" and "\<not> sublist n ys"
  shows "\<not> sublist n (xs @ c # ys)"
  using assms by (simp add: sublist_split_at)

lemma escaped_not_equal_sign: "escaped c \<Longrightarrow> c \<noteq> 0x3D"
  unfolding escaped_def uriUnreserved_unat by auto

lemma encodeURIComponent_no_equal_sign: "encodeURIComponent v = Inr enc \<Longrightarrow> 0x3D \<notin> set enc"
  unfolding encodeURIComponent_def
  using Encode_escaped escaped_not_equal_sign by (fastforce split: sum.splits)

lemma clientOptionsLoop_free:
  assumes "0x26 \<notin> set n"
    and "\<forall>(k, v) \<in> set co. \<forall>s. stringOperand v = Inr s \<longrightarrow> \<not> sublist n (k @ str ''='' @ s)"
    and "\<not> sublist n X"
    and "clientOptionsLoop (MONGOWRAPPER_CONSTANTS direct svr x509) co [] = Inr c"
  shows "\<not> sublist n (X @ c)"
  using assms(2,3,4)
proof (induction co arbitrary: X c)
  case Nil
  then show ?case by simp
next
  case (Cons kv co)
  obtain k v where kv: "kv = (k, v)" by (cases kv)
  let ?K = "MONGOWRAPPER_CONSTANTS direct svr x509"
  from Cons.prems(3) obtain w where w: "stringOperand v = Inr w"
    and step: "clientOptionsLoop ?K co (0x26 # (k @ str ''='' @ w)) = Inr c"
    unfolding kv by (auto simp: constants_fields str_def split: sum.splits)
  from Cons.prems(1) w have entry: "\<not> sublist n (k @ str ''='' @ w)"
    and rest: "\<forall>(k, v) \<in> set co. \<forall>s. stringOperand v = Inr s \<longrightarrow> \<not> sublist n (k @ str ''='' @ s)"
    by (auto simp: kv)
  from step clientOptionsLoop_acc[of ?K co "0x26 # (k @ str ''='' @ w)"]
  obtain c' where c': "clientOptionsLoop ?K co [] = Inr c'"
    and c: "c = (0x26 # (k @ str ''='' @ w)) @ c'"
    by (auto split: sum.splits)
  have "\<not> sublist n (X @ 0x26 # (k @ str ''='' @ w))"
    by (rule not_sublist_joined[OF assms(1) Cons.prems(2) entry])
  from Cons.IH[OF rest this c'] show ?case unfolding c by simp
qed

lemma tlsOptionsLoop_free:
  assumes "0x26 \<notin> set n"
    and "\<forall>(k, v) \<in> set t. \<forall>s. tlsOptionText v = Inr s \<longrightarrow> \<not> sublist n (k @ str ''='' @ s)"
    and "\<not> sublist n X"
    and "tlsOptionsLoop (MONGOWRAPPER_CONSTANTS direct svr x509) t [] = Inr c"
  shows "\<not> sublist n (X @ c)"
  using assms(2,3,4)
proof (induction t arbitrary: X c)
  case Nil
  then show ?case by simp
next
  case (Cons kv t)
  obtain k v where kv: "kv = (k, v)" by (cases kv)
  let ?K = "MONGOWRAPPER_CONSTANTS direct svr x509"
  from Cons.prems(3) obtain w where w: "tlsOptionText v = Inr w"
    and step: "tlsOptionsLoop ?K t (0x26 # (k @ str ''='' @ w)) = Inr c"
    unfolding kv tlsOptionsLoop_step by (auto simp: constants_fields str_def split: sum.splits)
  from Cons.prems(1) w have entry: "\<not> sublist n (k @ str ''='' @ w)"
    and rest: "\<forall>(k, v) \<in> set t. \<forall>s. tlsOptionText v = Inr s \<longrightarrow> \<not> sublist n (k @ str ''='' @ s)"
    by (auto simp: kv)
  from step tlsOptionsLoop_acc[of ?K t "0x26 # (k @ str ''='' @ w)"]
  obtain c' where c': "tlsOptionsLoop ?K t [] = Inr c'"
    and c: "c = (0x26 # (k @ str ''='' @ w)) @ c'"
    by (auto split: sum.splits)
  have "\<not> sublist n (X @ 0x26 # (k @ str ''='' @ w))"
    by (rule not_sublist_joined[OF assms(1) Cons.prems(2) entry])
  from Cons.IH[OF rest this c'] show ?case unfolding c by simp
qed

lemma truthy_not_empty: "ToBoolean v \<Longrightarrow> v \<noteq> JStr []"
  by auto

lemma addAuthMechanism_absent:
  "\<not> ToBoolean (authMechanism opts) \<Longrightarrow> addAuthMechanism K opts [] = Inr ([], [])"
  by (simp add: addAuthMechanism_def)

lemma addPassword_no_equal_sign:
  assumes "addPassword (MONGOWRAPPER_CONSTANTS direct svr x509) opts [] = Inr p"
  shows "0x3D \<notin> set p"
proof (cases "ToBoolean (password opts)")
  case False
  with assms show ?thesis by (simp add: addPassword_def)
next
  case True
  with assms obtain enc where "encodeURIComponent (password opts) = Inr enc" and "p = 0x3A # enc"
    by (auto simp: addPassword_def constants_fields split: sum.splits)
  with encodeURIComponent_no_equal_sign[of "password opts" enc] show ?thesis by simp
qed

lemma baseUri_no_equal_sign:
  assumes "\<not> sublist (str ''='') direct" and "\<not> sublist (str ''='') svr"
    and "encodeURIComponent (username opts) = Inr user"
  shows "0x3D \<notin> set (baseUri (MONGOWRAPPER_CONSTANTS direct svr x509) opts user)"
  using assms encodeURIComponent_no_equal_sign[OF assms(3)]
  by (simp add: baseUri_def constants_fields str_def sublist_single)

lemma authMechanism_in_authSource:
  "sublist (str ''authMechanism='') (str ''?authSource='' @ as)
     \<longleftrightarrow> sublist (str ''authMechanism='') as"
  by (simp add: str_def sublist_Cons_right prefix_Cons)

lemma authSource_in_authMechanism:
  "sublist (str ''authSource='') (str ''authMechanism='' @ X) \<longleftrightarrow> sublist (str ''authSource='') X"
  by (simp add: str_def sublist_Cons_right prefix_Cons)

lemma addAuthMechanism_without_tlsOptions:
  assumes "ToBoolean (authMechanism opts)" and "tlsOptions opts = None"
  shows "addAuthMechanism K opts [] =
           Inr (AND K @ AUTH_MECHANISM K @ EQUAL_SIGN K
                  @ (if authMechanism opts = JStr (DEFAULT K) then DEFAULT K
                     else if authMechanism opts = JStr (SCRAM_256 K) then SCRAM_256 K
                     else if authMechanism opts = JStr (SCRAM_1 K) then SCRAM_1 K
                     else if authMechanism opts = JStr (TLS K) then TLS K
                     else DEFAULT K), [])"
proof -
  consider "authMechanism opts = JStr (DEFAULT K)"
    | "authMechanism opts \<noteq> JStr (DEFAULT K)" "authMechanism opts = JStr (SCRAM_256 K)"
    | "authMechanism opts \<noteq> JStr (DEFAULT K)" "authMechanism opts \<noteq> JStr (SCRAM_256 K)"
      "authMechanism opts = JStr (SCRAM_1 K)"
    | "authMechanism opts \<noteq> JStr (DEFAULT K)" "authMechanism opts \<noteq> JStr (SCRAM_256 K)"
      "authMechanism opts \<noteq> JStr (SCRAM_1 K)" "authMechanism opts = JStr (TLS K)"
    | "authMechanism opts \<noteq> JStr (DEFAULT K)" "authMechanism opts \<noteq> JStr (SCRAM_256 K)"
      "authMechanism opts \<noteq> JStr (SCRAM_1 K)" "authMechanism opts \<noteq> JStr (TLS K)"
    by blast
  then show ?thesis
  proof cases
    case 1
    with assms show ?thesis by (simp add: addAuthMechanism_def Let_def)
  next
    case 2
    with assms show ?thesis by (simp add: addAuthMechanism_def Let_def)
  next
    case 3
    with assms show ?thesis by (simp add: addAuthMechanism_def Let_def)
  next
    case 4
    with assms show ?thesis by (simp add: addAuthMechanism_def Let_def)
  next
    case 5
    with assms show ?thesis by (simp add: addAuthMechanism_def Let_def)
  qed
qed

lemma addAuthMechanism_present:
  assumes "ToBoolean (authMechanism opts)"
    and "\<not> sublist (str ''='') x509"
    and "addAuthMechanism (MONGOWRAPPER_CONSTANTS direct svr x509) opts [] = Inr (a, c)"
  shows "\<exists>X. a = 0x26 # (str ''authMechanism='' @ X) \<and> 0x3D \<notin> set X
           \<and> (case tlsOptions opts of
                 Some t \<Rightarrow> tlsOptionsLoop (MONGOWRAPPER_CONSTANTS direct svr x509) t [] = Inr c
               | None \<Rightarrow> c = [])"
proof (cases "tlsOptions opts")
  case (Some t)
  from addAuthMechanism_tls[OF assms(1) Some assms(3)] obtain enc where
    enc: "encodeURIComponent (authMechanism opts) = Inr enc" and
    c: "tlsOptionsLoop (MONGOWRAPPER_CONSTANTS direct svr x509) t [] = Inr c" and
    "a = AND (MONGOWRAPPER_CONSTANTS direct svr x509) @ AUTH_MECHANISM (MONGOWRAPPER_CONSTANTS direct svr x509)
           @ EQUAL_SIGN (MONGOWRAPPER_CONSTANTS direct svr x509) @ enc"
    by blast
  then have a: "a = 0x26 # (str ''authMechanism='' @ enc)"
    by (simp add: constants_fields str_def)
  from a c Some encodeURIComponent_no_equal_sign[OF enc] show ?thesis by simp
next
  case None
  let ?K = "MONGOWRAPPER_CONSTANTS direct svr x509"
  define X where "X = (if authMechanism opts = JStr (DEFAULT ?K) then DEFAULT ?K
                     else if authMechanism opts = JStr (SCRAM_256 ?K) then SCRAM_256 ?K
                     else if authMechanism opts = JStr (SCRAM_1 ?K) then SCRAM_1 ?K
                     else if authMechanism opts = JStr (TLS ?K) then TLS ?K
                     else DEFAULT ?K)"
  have "0x3D \<notin> set (DEFAULT ?K)" "0x3D \<notin> set (SCRAM_256 ?K)" "0x3D \<notin> set (SCRAM_1 ?K)"
    by (simp_all add: constants_fields str_def)
  moreover have "0x3D \<notin> set (TLS ?K)"
    using assms(2) by (simp add: constants_fields str_def sublist_single)
  ultimately have X: "0x3D \<notin> set X" unfolding X_def by presburger
  from assms(3) have "a = AND ?K @ AUTH_MECHANISM ?K @ EQUAL_SIGN ?K @ X" and c: "c = []"
    unfolding addAuthMechanism_without_tlsOptions[OF assms(1) None] X_def by simp_all
  then have "a = 0x26 # (str ''authMechanism='' @ X)"
    by (simp add: constants_fields str_def)
  with X c None show ?thesis by simp
qed

lemma authSource_ignored:
  assumes "ToBoolean (loginDatabase opts)"
  shows "constructor K (opts\<lparr>authSource := x\<rparr>) = constructor K opts"
proof -
  have 1: "baseUri K (opts\<lparr>authSource := x\<rparr>) = baseUri K opts"
    by (simp add: baseUri_def fun_eq_iff)
  have 2: "addPassword K (opts\<lparr>authSource := x\<rparr>) = addPassword K opts"
    by (simp add: addPassword_def fun_eq_iff Let_def cong: sum.case_cong)
  have 3: "addValidationSource K (opts\<lparr>authSource := x\<rparr>) = addValidationSource K opts"
    using assms
    by (simp add: addValidationSource_def fun_eq_iff truthy_not_empty cong: sum.case_cong)
  have 4: "addAuthMechanism K (opts\<lparr>authSource := x\<rparr>) = addAuthMechanism K opts"
    by (simp add: addAuthMechanism_def fun_eq_iff Let_def cong: option.case_cong sum.case_cong)
  have 5: "addClientOptions K (opts\<lparr>authSource := x\<rparr>) = addClientOptions K opts"
    by (simp add: addClientOptions_def fun_eq_iff cong: option.case_cong prod.case_cong)
  show ?thesis
    unfolding constructor_def 1 2 3 4 5 by (simp cong: sum.case_cong)
qed

lemma loginDatabase_segment:
  assumes "ToBoolean (loginDatabase opts)"
    and "addValidationSource (MONGOWRAPPER_CONSTANTS direct svr x509) opts [] = Inr v"
  shows "\<exists>h db. stringOperand (host opts) = Inr h \<and> stringOperand (loginDatabase opts) = Inr db
           \<and> v = 0x40 # (h @ 0x2F # db)"
  using assms
  by (auto simp: addValidationSource_def constants_fields truthy_not_empty split: sum.splits)


lemma no_authSource_text:
  assumes ne: "\<not> (ToBoolean (connectionUri opts) \<and> typeof (connectionUri opts) = ''string'')"
    and ld: "ToBoolean (loginDatabase opts)"
    and u: "constructor (MONGOWRAPPER_CONSTANTS direct svr x509) opts = Inr u"
    and pre: "\<not> sublist (str ''='') direct" "\<not> sublist (str ''='') svr" "\<not> sublist (str ''='') x509"
    and host: "\<forall>s. stringOperand (host opts) = Inr s \<longrightarrow> \<not> sublist (str ''authSource='') s"
    and db: "\<forall>s. stringOperand (loginDatabase opts) = Inr s \<longrightarrow> \<not> sublist (str ''authSource='') s"
    and tls: "\<forall>(k, v) \<in> set (entries (tlsOptions opts)).
                \<forall>s. tlsOptionText v = Inr s \<longrightarrow> \<not> sublist (str ''authSource='') (k @ str ''='' @ s)"
    and co: "\<forall>(k, v) \<in> set (entries (clientOptions opts)).
                \<forall>s. stringOperand v = Inr s \<longrightarrow> \<not> sublist (str ''authSource='') (k @ str ''='' @ s)"
  shows "\<not> sublist (str ''authSource='') u"
proof -
  let ?K = "MONGOWRAPPER_CONSTANTS direct svr x509"
  let ?N = "str ''authSource=''"
  have N: "0x3D \<in> set ?N" "0x26 \<notin> set ?N" "0x40 \<notin> set ?N" "0x2F \<notin> set ?N"
    by (simp_all add: str_def)
  from u obtain user p v a c cl where
    user: "encodeURIComponent (username opts) = Inr user" and
    p: "addPassword ?K opts [] = Inr p" and
    v: "addValidationSource ?K opts [] = Inr v" and
    ac: "addAuthMechanism ?K opts [] = Inr (a, c)" and
    cl: "addClientOptions ?K opts ([], []) = Inr cl" and
    shape: "u = baseUri ?K opts user @ p @ v @ a @ c @ cl"
    unfolding constructor_segments[OF ne] by blast
  define B where "B = baseUri ?K opts user @ p"
  have "0x3D \<notin> set B"
    unfolding B_def
    using baseUri_no_equal_sign[OF pre(1,2) user] addPassword_no_equal_sign[OF p] by simp
  then have B: "\<not> sublist ?N B" by (rule not_sublist_missing_char[OF N(1)])
  from loginDatabase_segment[OF ld v] obtain h d where
    h: "stringOperand (host opts) = Inr h" and d: "stringOperand (loginDatabase opts) = Inr d"
    and v': "v = 0x40 # (h @ 0x2F # d)" by blast
  from host h have nh: "\<not> sublist ?N h" by blast
  from db d have nd: "\<not> sublist ?N d" by blast
  have "\<not> sublist ?N (h @ 0x2F # d)"
    by (rule not_sublist_joined[OF N(4) nh nd])
  then have V: "\<not> sublist ?N (B @ v)"
    unfolding v' by (rule not_sublist_joined[OF N(3) B])
  have A: "\<not> sublist ?N ((B @ v) @ a @ c)"
  proof (cases "ToBoolean (authMechanism opts)")
    case False
    from ac addAuthMechanism_absent[OF False] have "a = []" "c = []" by simp_all
    with V show ?thesis by simp
  next
    case True
    from addAuthMechanism_present[OF True pre(3) ac] obtain X where
      a: "a = 0x26 # (str ''authMechanism='' @ X)" and X: "0x3D \<notin> set X" and
      c: "case tlsOptions opts of Some t \<Rightarrow> tlsOptionsLoop ?K t [] = Inr c | None \<Rightarrow> c = []"
      by blast
    have "\<not> sublist ?N X" using X by (rule not_sublist_missing_char[OF N(1)])
    then have "\<not> sublist ?N (str ''authMechanism='' @ X)"
      unfolding authSource_in_authMechanism .
    then have Va: "\<not> sublist ?N ((B @ v) @ a)"
      unfolding a by (rule not_sublist_joined[OF N(2) V])
    show ?thesis
    proof (cases "tlsOptions opts")
      case None
      with c Va show ?thesis by simp
    next
      case (Some t)
      with c have t: "tlsOptionsLoop ?K t [] = Inr c" by simp
      from tls Some have entries:
        "\<forall>(k, v) \<in> set t. \<forall>s. tlsOptionText v = Inr s \<longrightarrow> \<not> sublist ?N (k @ str ''='' @ s)"
        by (simp add: entries_def)
      from tlsOptionsLoop_free[OF N(2) entries Va t] show ?thesis by simp
    qed
  qed
  from cl have cl': "clientOptionsLoop ?K (entries (clientOptions opts)) [] = Inr cl"
    by (simp add: addClientOptions_empty)
  have "\<not> sublist ?N (((B @ v) @ a @ c) @ cl)"
    by (rule clientOptionsLoop_free[OF N(2) co A cl'])
  then show ?thesis
    unfolding shape B_def by simp
qed

section \<open>A ready-made connection string is taken as it is\<close>

text \<open>
  C2. When \<open>options.connectionUri\<close> is a non-empty string, the constructor stores exactly
  that string, whatever the string table and the other options are: any two option
  objects with this \<open>connectionUri\<close> give the same result.
\<close>

theorem explicit_uri_verbatim:
  assumes "connectionUri opts = JStr s" and "s \<noteq> []"
  shows "constructor K opts = Inr s
         \<and> (\<forall>opts' K'. connectionUri opts' = JStr s \<longrightarrow> constructor K' opts' = constructor K opts)"
  using assms by (simp add: constructor_def)

theorem explicit_uri_verbatim_witness:
  "connectionUri (emptyOptions\<lparr>connectionUri := JStr (str ''mongodb://u:p@h:1/db''),
                               username := JStr (str ''bob'')\<rparr>)
     = JStr (str ''mongodb://u:p@h:1/db'')
   \<and> str ''mongodb://u:p@h:1/db'' \<noteq> []
   \<and> constructor exampleConstants
        (emptyOptions\<lparr>connectionUri := JStr (str ''mongodb://u:p@h:1/db''),
                      username := JStr (str ''bob'')\<rparr>)
      = Inr (str ''mongodb://u:p@h:1/db'')"
  using explicit_uri_verbatim
    [of "emptyOptions\<lparr>connectionUri := JStr (str ''mongodb://u:p@h:1/db''),
                       username := JStr (str ''bob'')\<rparr>"
        "str ''mongodb://u:p@h:1/db''" exampleConstants]
  by (simp add: str_def)

section \<open>The host is dropped when no validation source is given\<close>

text \<open>
  C5. The host is meant to be part of every connection string the constructor builds:
  the documentation calls it the host that will be used, and both branches of lines 68
  to 80 write it. The code misses the remaining case. With the options
  \<open>{username: 'bob', host: 'h:27017'}\<close> neither branch runs and the constructor stores
  \<open>mongodb://bob\<close>, in which the host does not occur.
\<close>

theorem host_missing_without_validation_source:
  "constructor exampleConstants
     (emptyOptions\<lparr>username := JStr (str ''bob''), host := JStr (str ''h:27017'')\<rparr>)
     = Inr (str ''mongodb://bob'')
   \<and> \<not> sublist (str ''h:27017'') (str ''mongodb://bob'')"
  by (simp add: encode_defs constructor_defs example_defs sublist_Cons_right prefix_Cons)

section \<open>Selecting a collection without a database\<close>

text \<open>
  C8. On a wrapper whose \<open>_database\<close> is still undefined, the \<open>collection\<close> setter throws
  for every collection name, every driver and every state of the client (connected or
  not). The exception is the \<open>TypeError\<close> of the property read, wrapped by
  \<open>errorMessage\<close> into the one \<open>Error\<close> class the wrapper has; this is the failure the
  specification names \<open>NoDatabaseSelectedError\<close>.
\<close>

theorem set_collection_without_database:
  assumes "this_database this = None"
  shows "set_collection drv this collectionName = Inl (Error TypeError)"
  using assms by (simp add: set_collection_def errorMessage_def)

theorem set_collection_without_database_witness:
  "(case new_MongoManager exampleConstants quietDriver
           (emptyOptions\<lparr>connectionUri := JStr (str ''mongodb://h'')\<rparr>) of
      Inl e \<Rightarrow> False
    | Inr this \<Rightarrow>
        this_database this = None
        \<and> set_collection quietDriver this (JStr (str ''users'')) = Inl (Error TypeError))"
  using set_collection_without_database
    [of "\<lparr> this_connectionUri = str ''mongodb://h'', this_client = 0,
            this_database = None, this_collection = None \<rparr>"
        quietDriver "JStr (str ''users'')"]
  by (simp add: new_MongoManager_def constructor_def example_defs str_def)

section \<open>Closing twice\<close>

text \<open>
  C9, as the specification states it, fails: with a driver whose \<open>close()\<close> does not throw,
  the first and the second \<open>closeConnection()\<close> both return normally.
\<close>

theorem second_close_succeeds:
  "closeConnection quietDriver
     \<lparr> this_connectionUri = str ''mongodb://h'', this_client = 0,
       this_database = None, this_collection = None \<rparr>
     = Inr \<lparr> this_connectionUri = str ''mongodb://h'', this_client = Suc 0,
             this_database = None, this_collection = None \<rparr>
   \<and> closeConnection quietDriver
       \<lparr> this_connectionUri = str ''mongodb://h'', this_client = Suc 0,
         this_database = None, this_collection = None \<rparr>
     = Inr \<lparr> this_connectionUri = str ''mongodb://h'', this_client = Suc (Suc 0),
             this_database = None, this_collection = None \<rparr>"
  by (simp add: closeConnection_def quietDriver_def)

text \<open>
  C9, amended. \<open>closeConnection\<close> records nothing about having been called: after a first
  call that returned, a second call does whatever the driver's \<open>close()\<close> does on the
  client as the first call left it. It returns normally when that call returns, it
  throws the driver's own exception when that call throws, and the other fields of the
  wrapper are those from before the first call.
\<close>

theorem close_twice_follows_driver:
  assumes "closeConnection drv this = Inr this1"
  shows "(\<forall>c2. client_close drv (this_client this1) = Inr c2 \<longrightarrow>
            closeConnection drv this1 = Inr (this\<lparr>this_client := c2\<rparr>))
         \<and> (\<forall>e. client_close drv (this_client this1) = Inl e \<longrightarrow>
            closeConnection drv this1 = Inl e)"
  using assms by (auto simp: closeConnection_def split: sum.splits)

theorem close_twice_follows_driver_witness:
  "closeConnection quietDriver
     \<lparr> this_connectionUri = str ''mongodb://h'', this_client = 0,
       this_database = None, this_collection = None \<rparr>
     = Inr \<lparr> this_connectionUri = str ''mongodb://h'', this_client = Suc 0,
             this_database = None, this_collection = None \<rparr>
   \<and> client_close quietDriver (Suc 0) = Inr (Suc (Suc 0))
   \<and> closeConnection quietDriver
       \<lparr> this_connectionUri = str ''mongodb://h'', this_client = Suc 0,
         this_database = None, this_collection = None \<rparr>
     = Inr \<lparr> this_connectionUri = str ''mongodb://h'', this_client = Suc (Suc 0),
             this_database = None, this_collection = None \<rparr>"
  using close_twice_follows_driver
    [of quietDriver
        "\<lparr> this_connectionUri = str ''mongodb://h'', this_client = 0,
            this_database = None, this_collection = None \<rparr>"
        "\<lparr> this_connectionUri = str ''mongodb://h'', this_client = Suc 0,
            this_database = None, this_collection = None \<rparr>"]
  by (simp add: closeConnection_def quietDriver_def)

section \<open>Values that are not strings\<close>

text \<open>
  A symbol as host: the concatenation of lines 69 to 72 raises \<open>TypeError\<close>, although
  neither the user name nor any encoded value is at fault.
\<close>

lemma symbol_host_throws:
  "constructor exampleConstants
     (emptyOptions\<lparr>loginDatabase := JStr (str ''d''), host := symbolValue\<rparr>) = Inl TypeError"
  by (simp add: encode_defs constructor_defs example_defs)

text \<open>A symbol as the value of a client option: line 129 raises \<open>TypeError\<close>.\<close>

lemma symbol_clientOption_throws:
  "constructor exampleConstants
     (emptyOptions\<lparr>clientOptions := Some [(str ''w'', symbolValue)]\<rparr>) = Inl TypeError"
  by (simp add: encode_defs constructor_defs example_defs)

text \<open>
  A buffer as the value of a TLS option is not a string, so line 104 writes its text
  unencoded: with \<open>tlsOptions: {tlsCAFile: Buffer.from('x&authSource=admin')}\<close> the
  connection string contains \<open>authSource=\<close> although the login database is set.
\<close>

lemma buffer_tlsOption_unencoded:
  "constructor exampleConstants
     (emptyOptions\<lparr>username := JStr (str ''bob''), host := JStr (str ''h:27017''),
        loginDatabase := JStr (str ''db1''), authMechanism := JStr (str ''MONGODB-X509''),
        tlsOptions := Some [(str ''tlsCAFile'', bufferValue (str ''x&authSource=admin''))]\<rparr>)
     = Inr (str ''mongodb://bob@h:27017/db1&authMechanism=MONGODB-X509&tlsCAFile=x&authSource=admin'')
   \<and> sublist (str ''authSource='')
        (str ''mongodb://bob@h:27017/db1&authMechanism=MONGODB-X509&tlsCAFile=x&authSource=admin'')"
  by (simp add: encode_defs constructor_defs example_defs sublist_Cons_right prefix_Cons)

section \<open>Missing user name or host\<close>

text \<open>
  C1, as the specification states it, fails: the options \<open>{loginDatabase: 'db1'}\<close> have
  neither \<open>connectionUri\<close> nor \<open>username\<close> nor \<open>host\<close>, and the constructor returns a
  connection string in which both missing values read \<open>undefined\<close>.
\<close>

theorem missing_username_and_host_accepted:
  "constructor exampleConstants (emptyOptions\<lparr>loginDatabase := JStr (str ''db1'')\<rparr>)
     = Inr (str ''mongodb://undefined@undefined/db1'')"
  by (simp add: encode_defs constructor_defs example_defs)

text \<open>
  C1, amended. The constructor has no check of \<open>username\<close> or \<open>host\<close> and rejects no
  configuration for lacking them: a missing user name gives exactly the result,
  connection string or exception, that the user name \<open>'undefined'\<close> gives, and a missing
  host exactly the result of the host \<open>'undefined'\<close>; whenever the constructor returns a
  connection string for a configuration, it also returns one for the same configuration
  without the user name, without the host, and without both; and it returns a connection
  string whenever the values the configuration has can be written, that is, whenever the
  configuration is \<open>convertible\<close>, which missing values always are.
\<close>

theorem no_validation_of_username_and_host:
  "(username opts = JUndefined \<longrightarrow>
      constructor K opts = constructor K (opts\<lparr>username := JStr (str ''undefined'')\<rparr>))
   \<and> (host opts = JUndefined \<longrightarrow>
      constructor K opts = constructor K (opts\<lparr>host := JStr (str ''undefined'')\<rparr>))
   \<and> (\<forall>u. constructor K opts = Inr u \<longrightarrow>
        (\<exists>u'. constructor K (opts\<lparr>username := JUndefined\<rparr>) = Inr u')
        \<and> (\<exists>u'. constructor K (opts\<lparr>host := JUndefined\<rparr>) = Inr u')
        \<and> (\<exists>u'. constructor K (opts\<lparr>username := JUndefined, host := JUndefined\<rparr>) = Inr u'))
   \<and> (convertible opts \<longrightarrow> (\<exists>u. constructor K opts = Inr u))"
proof (intro conjI impI allI)
  assume "username opts = JUndefined"
  then have "encodeURIComponent (username opts)
               = encodeURIComponent (username (opts\<lparr>username := JStr (str ''undefined'')\<rparr>))"
    by (simp add: encodeURIComponent_def)
  then show "constructor K opts = constructor K (opts\<lparr>username := JStr (str ''undefined'')\<rparr>)"
    by (intro constructor_cong) simp_all
next
  assume "host opts = JUndefined"
  then have "stringOperand (host opts)
               = stringOperand (host (opts\<lparr>host := JStr (str ''undefined'')\<rparr>))"
    by simp
  then show "constructor K opts = constructor K (opts\<lparr>host := JStr (str ''undefined'')\<rparr>)"
    by (intro constructor_cong) simp_all
next
  fix u assume "constructor K opts = Inr u"
  then show "\<exists>u'. constructor K (opts\<lparr>username := JUndefined\<rparr>) = Inr u'"
    by (rule constructor_without_username)
next
  fix u assume "constructor K opts = Inr u"
  then show "\<exists>u'. constructor K (opts\<lparr>host := JUndefined\<rparr>) = Inr u'"
    by (rule constructor_without_host)
next
  fix u assume "constructor K opts = Inr u"
  then obtain w where "constructor K (opts\<lparr>username := JUndefined\<rparr>) = Inr w"
    using constructor_without_username by blast
  then show "\<exists>u'. constructor K (opts\<lparr>username := JUndefined, host := JUndefined\<rparr>) = Inr u'"
    by (rule constructor_without_host)
next
  assume "convertible opts"
  then show "\<exists>u. constructor K opts = Inr u" by (rule constructor_succeeds)
qed

theorem no_validation_of_username_and_host_witness:
  "username (emptyOptions\<lparr>loginDatabase := JStr (str ''db1'')\<rparr>) = JUndefined
   \<and> host (emptyOptions\<lparr>loginDatabase := JStr (str ''db1'')\<rparr>) = JUndefined
   \<and> convertible (emptyOptions\<lparr>loginDatabase := JStr (str ''db1'')\<rparr>)
   \<and> constructor exampleConstants (emptyOptions\<lparr>loginDatabase := JStr (str ''db1'')\<rparr>)
       = Inr (str ''mongodb://undefined@undefined/db1'')
   \<and> constructor exampleConstants
         (emptyOptions\<lparr>loginDatabase := JStr (str ''db1''),
            username := JStr (str ''undefined''), host := JStr (str ''undefined'')\<rparr>)
       = Inr (str ''mongodb://undefined@undefined/db1'')
   \<and> constructor exampleConstants
         (emptyOptions\<lparr>username := JStr (str ''bob''), host := JStr (str ''h:27017''),
            loginDatabase := JStr (str ''db1'')\<rparr>)
       = Inr (str ''mongodb://bob@h:27017/db1'')
   \<and> constructor exampleConstants
         (emptyOptions\<lparr>username := JStr (str ''bob''), host := JStr (str ''h:27017''),
            loginDatabase := JStr (str ''db1''), username := JUndefined\<rparr>)
       = Inr (str ''mongodb://undefined@h:27017/db1'')
   \<and> constructor exampleConstants
         (emptyOptions\<lparr>username := JStr (str ''bob''), host := JStr (str ''h:27017''),
            loginDatabase := JStr (str ''db1''), host := JUndefined\<rparr>)
       = Inr (str ''mongodb://bob@undefined/db1'')
   \<and> constructor exampleConstants
         (emptyOptions\<lparr>username := JStr (str ''bob''), host := JStr (str ''h:27017''),
            loginDatabase := JStr (str ''db1''), username := JUndefined, host := JUndefined\<rparr>)
       = Inr (str ''mongodb://undefined@undefined/db1'')"
  using no_validation_of_username_and_host
    [of "emptyOptions\<lparr>loginDatabase := JStr (str ''db1'')\<rparr>" exampleConstants]
    no_validation_of_username_and_host
    [of "emptyOptions\<lparr>username := JStr (str ''bob''), host := JStr (str ''h:27017''),
            loginDatabase := JStr (str ''db1'')\<rparr>" exampleConstants]
  by (simp add: encode_defs constructor_defs example_defs proviso_defs)

text \<open>
  C10, as stated for every configuration, fails: without a user name and with a password
  that is a lone surrogate, \<open>encodeURIComponent\<close> raises \<open>URIError\<close> and so does the
  constructor.
\<close>

theorem lone_surrogate_password_throws:
  "constructor exampleConstants (emptyOptions\<lparr>password := JStr [0xD800]\<rparr>) = Inl URIError"
  by (simp add: encode_defs constructor_defs example_defs)

text \<open>
  C10, amended. When no \<open>connectionUri\<close> is used and \<open>username\<close> is missing, the missing user
  name raises nothing: every connection string the constructor returns consists of the
  scheme prefix, the text \<open>undefined\<close> in the place of the encoded user name, and the
  remaining segments; and the constructor returns such a string whenever the
  configuration is \<open>convertible\<close>, that is, whenever no other value makes a conversion
  throw (a lone surrogate in an encoded value, a symbol, an object whose conversion
  throws).
\<close>

theorem missing_username_written_as_undefined:
  assumes "\<not> (ToBoolean (connectionUri opts) \<and> typeof (connectionUri opts) = ''string'')"
    and "username opts = JUndefined"
  shows "(\<forall>u. constructor K opts = Inr u \<longrightarrow>
            (\<exists>rest. u = (if ToBoolean (svrString opts) then MONGOSERVER_SVR K else MONGOSERVER K)
                          @ str ''undefined'' @ rest))
         \<and> (convertible opts \<longrightarrow>
            (\<exists>rest. constructor K opts =
               Inr ((if ToBoolean (svrString opts) then MONGOSERVER_SVR K else MONGOSERVER K)
                      @ str ''undefined'' @ rest)))"
proof -
  have shape: "\<exists>rest. u = (if ToBoolean (svrString opts) then MONGOSERVER_SVR K else MONGOSERVER K)
                          @ str ''undefined'' @ rest"
    if u: "constructor K opts = Inr u" for u
  proof -
    from u obtain user p v a c co where
      user: "encodeURIComponent (username opts) = Inr user" and
      eq: "u = baseUri K opts user @ p @ v @ a @ c @ co"
      unfolding constructor_segments[OF assms(1)] by blast
    from user assms(2) have "user = str ''undefined''"
      by (simp add: encodeURIComponent_undefined)
    with eq have "u = (if ToBoolean (svrString opts) then MONGOSERVER_SVR K else MONGOSERVER K)
                    @ str ''undefined'' @ (p @ v @ a @ c @ co)"
      by (simp add: baseUri_def)
    then show ?thesis by blast
  qed
  moreover have "\<exists>rest. constructor K opts =
               Inr ((if ToBoolean (svrString opts) then MONGOSERVER_SVR K else MONGOSERVER K)
                      @ str ''undefined'' @ rest)"
    if "convertible opts"
  proof -
    from constructor_succeeds[OF that] obtain u where u: "constructor K opts = Inr u" ..
    with shape[OF u] show ?thesis by auto
  qed
  ultimately show ?thesis by blast
qed

theorem missing_username_written_as_undefined_witness:
  "\<not> (ToBoolean (connectionUri (emptyOptions\<lparr>password := JStr (str ''p@ss''),
          host := JStr (str ''h:27017''), loginDatabase := JStr (str ''db1'')\<rparr>))
       \<and> typeof (connectionUri (emptyOptions\<lparr>password := JStr (str ''p@ss''),
          host := JStr (str ''h:27017''), loginDatabase := JStr (str ''db1'')\<rparr>)) = ''string'')
   \<and> username (emptyOptions\<lparr>password := JStr (str ''p@ss''),
          host := JStr (str ''h:27017''), loginDatabase := JStr (str ''db1'')\<rparr>) = JUndefined
   \<and> convertible (emptyOptions\<lparr>password := JStr (str ''p@ss''),
          host := JStr (str ''h:27017''), loginDatabase := JStr (str ''db1'')\<rparr>)
   \<and> constructor exampleConstants (emptyOptions\<lparr>password := JStr (str ''p@ss''),
          host := JStr (str ''h:27017''), loginDatabase := JStr (str ''db1'')\<rparr>)
       = Inr (str ''mongodb://'' @ str ''undefined'' @ str '':p%40ss@h:27017/db1'')"
  using missing_username_written_as_undefined
    [of "emptyOptions\<lparr>password := JStr (str ''p@ss''),
          host := JStr (str ''h:27017''), loginDatabase := JStr (str ''db1'')\<rparr>"
        exampleConstants]
  by (simp add: encode_defs constructor_defs example_defs proviso_defs)

section \<open>The order of the mechanism, the TLS parameters and the client options\<close>

text \<open>
  C4, as the specification states it, fails. Line 108 appends the \<open>authMechanism\<close>
  parameter to the connection string at once, while the TLS parameters are collected in
  the local \<open>clientOptions\<close> and reach the string only at line 133: in the result the
  mechanism stands before the TLS parameters, and \<open>tls=\<close> does not occur up to the end
  of the mechanism parameter.
\<close>

theorem tlsOptions_follow_authMechanism:
  "constructor exampleConstants x509Options
     = Inr (str ''mongodb://bob@h:27017/db1&authMechanism=MONGODB-X509&tls=true&tlsCAFile=%2Fetc%2Fca.pem&w=majority'')
   \<and> constructor exampleConstants x509Options
     \<noteq> Inr (str ''mongodb://bob@h:27017/db1&tls=true&tlsCAFile=%2Fetc%2Fca.pem&authMechanism=MONGODB-X509&w=majority'')
   \<and> \<not> sublist (str ''tls='')
         (str ''mongodb://bob@h:27017/db1&authMechanism=MONGODB-X509'')"
  by (simp add: encode_defs constructor_defs example_defs sublist_Cons_right prefix_Cons)

text \<open>
  C4, amended. When no \<open>connectionUri\<close> is used, \<open>authMechanism\<close> is truthy and
  \<open>tlsOptions\<close> is given, a connection string the constructor returns is the
  concatenation of four parts, each written once and in this order: the string up to the
  validation source, the parameter \<open>&authMechanism=\<close> with the encoded mechanism, the
  serialized \<open>tlsOptions\<close>, and the serialized \<open>clientOptions\<close>.
\<close>

theorem authMechanism_then_tlsOptions_then_clientOptions:
  assumes "\<not> (ToBoolean (connectionUri opts) \<and> typeof (connectionUri opts) = ''string'')"
    and "ToBoolean (authMechanism opts)"
    and "tlsOptions opts = Some tls"
    and "constructor K opts = Inr u"
  shows "\<exists>user p v enc tlsText clientText.
           encodeURIComponent (username opts) = Inr user
           \<and> addPassword K opts [] = Inr p
           \<and> addValidationSource K opts [] = Inr v
           \<and> encodeURIComponent (authMechanism opts) = Inr enc
           \<and> tlsOptionsLoop K tls [] = Inr tlsText
           \<and> clientOptionsLoop K (entries (clientOptions opts)) [] = Inr clientText
           \<and> u = (baseUri K opts user @ p @ v)
                  @ (AND K @ AUTH_MECHANISM K @ EQUAL_SIGN K @ enc)
                  @ tlsText
                  @ clientText"
proof -
  from assms(4) obtain user p v a c co where
    user: "encodeURIComponent (username opts) = Inr user" and
    p: "addPassword K opts [] = Inr p" and
    v: "addValidationSource K opts [] = Inr v" and
    ac: "addAuthMechanism K opts [] = Inr (a, c)" and
    co: "addClientOptions K opts ([], []) = Inr co" and
    shape: "u = baseUri K opts user @ p @ v @ a @ c @ co"
    unfolding constructor_segments[OF assms(1)] by blast
  from addAuthMechanism_tls[OF assms(2,3) ac] obtain enc where
    enc: "encodeURIComponent (authMechanism opts) = Inr enc" and
    c: "tlsOptionsLoop K tls [] = Inr c" and
    a: "a = AND K @ AUTH_MECHANISM K @ EQUAL_SIGN K @ enc"
    by blast
  from co have co': "clientOptionsLoop K (entries (clientOptions opts)) [] = Inr co"
    by (simp add: addClientOptions_empty)
  from shape a have "u = (baseUri K opts user @ p @ v)
                  @ (AND K @ AUTH_MECHANISM K @ EQUAL_SIGN K @ enc) @ c @ co"
    by simp
  with user p v enc c co' show ?thesis by blast
qed

theorem authMechanism_then_tlsOptions_then_clientOptions_witness:
  "\<not> (ToBoolean (connectionUri x509Options) \<and> typeof (connectionUri x509Options) = ''string'')
   \<and> ToBoolean (authMechanism x509Options)
   \<and> tlsOptions x509Options
        = Some [(str ''tls'', JBool True), (str ''tlsCAFile'', JStr (str ''/etc/ca.pem''))]
   \<and> constructor exampleConstants x509Options
        = Inr (str ''mongodb://bob@h:27017/db1''
               @ str ''&authMechanism=MONGODB-X509''
               @ str ''&tls=true&tlsCAFile=%2Fetc%2Fca.pem''
               @ str ''&w=majority'')"
  using authMechanism_then_tlsOptions_then_clientOptions
    [of x509Options "[(str ''tls'', JBool True), (str ''tlsCAFile'', JStr (str ''/etc/ca.pem''))]"
        exampleConstants
        "str ''mongodb://bob@h:27017/db1&authMechanism=MONGODB-X509&tls=true&tlsCAFile=%2Fetc%2Fca.pem&w=majority''"]
  by (simp add: encode_defs constructor_defs example_defs x509Options_def)

section \<open>The password survives encoding\<close>




section \<open>The login database and the \<open>authSource\<close> text\<close>

text \<open>
  C3, as the specification states it, fails: the options carry it, not the builder. With
  \<open>{username: 'bob', host: 'h:27017', loginDatabase: 'db1', clientOptions: {authSource:
  'admin'}}\<close> the connection string ends in \<open>&authSource=admin\<close>.
\<close>

theorem authSource_text_from_clientOptions:
  "constructor exampleConstants
     (emptyOptions\<lparr>username := JStr (str ''bob''), host := JStr (str ''h:27017''),
        loginDatabase := JStr (str ''db1''),
        clientOptions := Some [(str ''authSource'', JStr (str ''admin''))]\<rparr>)
     = Inr (str ''mongodb://bob@h:27017/db1&authSource=admin'')
   \<and> sublist (str ''authSource='') (str ''mongodb://bob@h:27017/db1&authSource=admin'')"
  by (simp add: encode_defs constructor_defs example_defs sublist_Cons_right prefix_Cons)

text \<open>
  C3, amended. When no \<open>connectionUri\<close> is used and \<open>loginDatabase\<close> is set and non-empty, a
  connection string the constructor returns contains \<open>@\<close>, the host, \<open>/\<close> and the login
  database in a row, each as string concatenation renders it; it is the same whatever
  \<open>authSource\<close> is; and it does not contain \<open>authSource=\<close> provided nothing the
  constructor writes brings the text in: no \<open>=\<close> in the scheme prefixes and in the
  certificate mechanism name, no \<open>authSource=\<close> in the rendered host and login database,
  and none in an entry \<open>key=value\<close> of \<open>tlsOptions\<close> or \<open>clientOptions\<close> as it is written
  (a string value of \<open>tlsOptions\<close> encoded, every other value as concatenation renders it,
  whatever kind of value it is).
\<close>

theorem loginDatabase_takes_precedence:
  assumes "\<not> (ToBoolean (connectionUri opts) \<and> typeof (connectionUri opts) = ''string'')"
    and "ToBoolean (loginDatabase opts)" and "loginDatabase opts \<noteq> JStr []"
    and "constructor (MONGOWRAPPER_CONSTANTS direct svr x509) opts = Inr u"
  shows "(\<exists>h db. stringOperand (host opts) = Inr h \<and> stringOperand (loginDatabase opts) = Inr db
            \<and> sublist (str ''@'' @ h @ str ''/'' @ db) u)
         \<and> (\<forall>x. constructor (MONGOWRAPPER_CONSTANTS direct svr x509) (opts\<lparr>authSource := x\<rparr>) = Inr u)
         \<and> (\<not> sublist (str ''='') direct \<and> \<not> sublist (str ''='') svr \<and> \<not> sublist (str ''='') x509
              \<and> (\<forall>s. stringOperand (host opts) = Inr s \<longrightarrow> \<not> sublist (str ''authSource='') s)
              \<and> (\<forall>s. stringOperand (loginDatabase opts) = Inr s \<longrightarrow>
                    \<not> sublist (str ''authSource='') s)
              \<and> (\<forall>(k, v) \<in> set (entries (tlsOptions opts)).
                    \<forall>s. tlsOptionText v = Inr s \<longrightarrow>
                      \<not> sublist (str ''authSource='') (k @ str ''='' @ s))
              \<and> (\<forall>(k, v) \<in> set (entries (clientOptions opts)).
                    \<forall>s. stringOperand v = Inr s \<longrightarrow>
                      \<not> sublist (str ''authSource='') (k @ str ''='' @ s))
            \<longrightarrow> \<not> sublist (str ''authSource='') u)"
proof (intro conjI impI)
  let ?K = "MONGOWRAPPER_CONSTANTS direct svr x509"
  from assms(4) obtain user p v a c cl where
    v: "addValidationSource ?K opts [] = Inr v" and
    shape: "u = baseUri ?K opts user @ p @ v @ a @ c @ cl"
    unfolding constructor_segments[OF assms(1)] by blast
  from loginDatabase_segment[OF assms(2) v] obtain h d where
    h: "stringOperand (host opts) = Inr h" and d: "stringOperand (loginDatabase opts) = Inr d"
    and v': "v = 0x40 # (h @ 0x2F # d)" by blast
  have "u = (baseUri ?K opts user @ p) @ (str ''@'' @ h @ str ''/'' @ d) @ (a @ c @ cl)"
    unfolding shape v' by (simp add: str_def)
  then have "sublist (str ''@'' @ h @ str ''/'' @ d) u"
    by (simp only: sublist_appendI)
  with h d show "\<exists>h db. stringOperand (host opts) = Inr h
            \<and> stringOperand (loginDatabase opts) = Inr db
            \<and> sublist (str ''@'' @ h @ str ''/'' @ db) u"
    by blast
next
  show "\<forall>x. constructor (MONGOWRAPPER_CONSTANTS direct svr x509) (opts\<lparr>authSource := x\<rparr>) = Inr u"
    using authSource_ignored[OF assms(2)] assms(4) by simp
next
  assume h: "\<not> sublist (str ''='') direct \<and> \<not> sublist (str ''='') svr \<and> \<not> sublist (str ''='') x509
              \<and> (\<forall>s. stringOperand (host opts) = Inr s \<longrightarrow> \<not> sublist (str ''authSource='') s)
              \<and> (\<forall>s. stringOperand (loginDatabase opts) = Inr s \<longrightarrow>
                    \<not> sublist (str ''authSource='') s)
              \<and> (\<forall>(k, v) \<in> set (entries (tlsOptions opts)).
                    \<forall>s. tlsOptionText v = Inr s \<longrightarrow>
                      \<not> sublist (str ''authSource='') (k @ str ''='' @ s))
              \<and> (\<forall>(k, v) \<in> set (entries (clientOptions opts)).
                    \<forall>s. stringOperand v = Inr s \<longrightarrow>
                      \<not> sublist (str ''authSource='') (k @ str ''='' @ s))"
  show "\<not> sublist (str ''authSource='') u"
    by (rule no_authSource_text[OF assms(1,2,4)]) (use h in blast)+
qed

theorem loginDatabase_takes_precedence_witness:
  "\<not> (ToBoolean (connectionUri (x509Options\<lparr>authSource := JStr (str ''admin'')\<rparr>))
       \<and> typeof (connectionUri (x509Options\<lparr>authSource := JStr (str ''admin'')\<rparr>)) = ''string'')
   \<and> ToBoolean (loginDatabase (x509Options\<lparr>authSource := JStr (str ''admin'')\<rparr>))
   \<and> constructor exampleConstants (x509Options\<lparr>authSource := JStr (str ''admin'')\<rparr>)
       = Inr (str ''mongodb://bob@h:27017/db1&authMechanism=MONGODB-X509&tls=true&tlsCAFile=%2Fetc%2Fca.pem&w=majority'')
   \<and> sublist (str ''@'' @ str ''h:27017'' @ str ''/'' @ str ''db1'')
         (str ''mongodb://bob@h:27017/db1&authMechanism=MONGODB-X509&tls=true&tlsCAFile=%2Fetc%2Fca.pem&w=majority'')
   \<and> \<not> sublist (str ''authSource='') (str ''tls'' @ str ''='' @ str ''true'')
   \<and> \<not> sublist (str ''authSource='') (str ''tlsCAFile'' @ str ''='' @ str ''%2Fetc%2Fca.pem'')
   \<and> \<not> sublist (str ''authSource='') (str ''w'' @ str ''='' @ str ''majority'')
   \<and> \<not> sublist (str ''authSource='')
         (str ''mongodb://bob@h:27017/db1&authMechanism=MONGODB-X509&tls=true&tlsCAFile=%2Fetc%2Fca.pem&w=majority'')"
  using loginDatabase_takes_precedence
    [of "x509Options\<lparr>authSource := JStr (str ''admin'')\<rparr>"
        "str ''mongodb://''" "str ''mongodb+srv://''" "str ''MONGODB-X509''"
        "str ''mongodb://bob@h:27017/db1&authMechanism=MONGODB-X509&tls=true&tlsCAFile=%2Fetc%2Fca.pem&w=majority''"]
  by (simp add: encode_defs constructor_defs example_defs proviso_defs
        sublist_Cons_right prefix_Cons)

section \<open>No mechanism, no mechanism parameter\<close>

text \<open>
  C6, as the specification states it for arbitrary \<open>clientOptions\<close>, fails: with
  \<open>clientOptions: {authMechanism: 'PLAIN'}\<close> and no \<open>authMechanism\<close> option the connection
  string ends in \<open>&authMechanism=PLAIN\<close>.
\<close>

theorem authMechanism_text_from_clientOptions:
  "constructor exampleConstants
     (emptyOptions\<lparr>username := JStr (str ''bob''), host := JStr (str ''h:27017''),
        loginDatabase := JStr (str ''db1''),
        clientOptions := Some [(str ''authMechanism'', JStr (str ''PLAIN''))]\<rparr>)
     = Inr (str ''mongodb://bob@h:27017/db1&authMechanism=PLAIN'')
   \<and> sublist (str ''authMechanism='') (str ''mongodb://bob@h:27017/db1&authMechanism=PLAIN'')"
  by (simp add: encode_defs constructor_defs example_defs sublist_Cons_right prefix_Cons)

text \<open>
  C6, amended. When no \<open>connectionUri\<close> is used and \<open>authMechanism\<close> is absent (or otherwise
  falsy), a connection string the constructor returns does not contain \<open>authMechanism=\<close>,
  for every \<open>tlsOptions\<close> (which are then ignored), provided the other options do not
  bring the text in themselves: no \<open>=\<close> in the scheme prefixes, no \<open>authMechanism=\<close> in
  the host, the login database and the \<open>authSource\<close> as string concatenation renders
  them, and none in an entry \<open>key=value\<close> of \<open>clientOptions\<close>.
\<close>

theorem no_authMechanism_text_without_authMechanism:
  assumes "\<not> (ToBoolean (connectionUri opts) \<and> typeof (connectionUri opts) = ''string'')"
    and "\<not> ToBoolean (authMechanism opts)"
    and "\<not> sublist (str ''='') direct" and "\<not> sublist (str ''='') svr"
    and "\<forall>s. stringOperand (host opts) = Inr s \<longrightarrow> \<not> sublist (str ''authMechanism='') s"
    and "\<forall>s. stringOperand (loginDatabase opts) = Inr s \<longrightarrow> \<not> sublist (str ''authMechanism='') s"
    and "\<forall>s. stringOperand (authSource opts) = Inr s \<longrightarrow> \<not> sublist (str ''authMechanism='') s"
    and "\<forall>(k, v) \<in> set (entries (clientOptions opts)).
           \<forall>s. stringOperand v = Inr s \<longrightarrow> \<not> sublist (str ''authMechanism='') (k @ str ''='' @ s)"
    and "constructor (MONGOWRAPPER_CONSTANTS direct svr x509) opts = Inr u"
  shows "\<not> sublist (str ''authMechanism='') u"
proof -
  let ?K = "MONGOWRAPPER_CONSTANTS direct svr x509"
  let ?N = "str ''authMechanism=''"
  have N: "0x3D \<in> set ?N" "0x26 \<notin> set ?N" "0x40 \<notin> set ?N" "0x2F \<notin> set ?N"
    by (simp_all add: str_def)
  from assms(9) obtain user p v a c cl where
    user: "encodeURIComponent (username opts) = Inr user" and
    p: "addPassword ?K opts [] = Inr p" and
    v: "addValidationSource ?K opts [] = Inr v" and
    ac: "addAuthMechanism ?K opts [] = Inr (a, c)" and
    cl: "addClientOptions ?K opts ([], []) = Inr cl" and
    shape: "u = baseUri ?K opts user @ p @ v @ a @ c @ cl"
    unfolding constructor_segments[OF assms(1)] by blast
  from ac addAuthMechanism_absent[OF assms(2)] have a: "a = []" and c: "c = []" by simp_all
  define B where "B = baseUri ?K opts user @ p"
  have "0x3D \<notin> set B"
    unfolding B_def
    using baseUri_no_equal_sign[OF assms(3,4) user] addPassword_no_equal_sign[OF p] by simp
  then have B: "\<not> sublist ?N B" by (rule not_sublist_missing_char[OF N(1)])
  have V: "\<not> sublist ?N (B @ v)"
  proof (cases "ToBoolean (loginDatabase opts)")
    case True
    from loginDatabase_segment[OF True v] obtain h d where
      h: "stringOperand (host opts) = Inr h" and d: "stringOperand (loginDatabase opts) = Inr d"
      and v': "v = 0x40 # (h @ 0x2F # d)" by blast
    from assms(5) h have nh: "\<not> sublist ?N h" by blast
    from assms(6) d have nd: "\<not> sublist ?N d" by blast
    have "\<not> sublist ?N (h @ 0x2F # d)"
      by (rule not_sublist_joined[OF N(4) nh nd])
    then show ?thesis unfolding v' by (rule not_sublist_joined[OF N(3) B])
  next
    case no_login: False
    show ?thesis
    proof (cases "ToBoolean (authSource opts)")
      case True
      with no_login v obtain h src where
        h: "stringOperand (host opts) = Inr h" and src: "stringOperand (authSource opts) = Inr src"
        and v': "v = 0x40 # (h @ 0x2F # (str ''?authSource='' @ src))"
        by (auto simp: addValidationSource_def constants_fields str_def truthy_not_empty
                 split: sum.splits)
      from assms(5) h have nh: "\<not> sublist ?N h" by blast
      from assms(7) src have "\<not> sublist ?N src" by blast
      then have "\<not> sublist ?N (str ''?authSource='' @ src)"
        unfolding authMechanism_in_authSource .
      then have "\<not> sublist ?N (h @ 0x2F # (str ''?authSource='' @ src))"
        by (rule not_sublist_joined[OF N(4) nh])
      then show ?thesis unfolding v' by (rule not_sublist_joined[OF N(3) B])
    next
      case False
      with no_login v have "v = []"
        by (simp add: addValidationSource_def truthy_not_empty)
      with B show ?thesis by simp
    qed
  qed
  from cl have cl': "clientOptionsLoop ?K (entries (clientOptions opts)) [] = Inr cl"
    by (simp add: addClientOptions_empty)
  have "\<not> sublist ?N ((B @ v) @ cl)"
    by (rule clientOptionsLoop_free[OF N(2) assms(8) V cl'])
  then show ?thesis
    unfolding shape a c B_def by simp
qed

theorem no_authMechanism_text_without_authMechanism_witness:
  "\<not> ToBoolean (authMechanism (emptyOptions\<lparr>username := JStr (str ''bob''),
          host := JStr (str ''h:27017''), authSource := JStr (str ''admin''),
          tlsOptions := Some [(str ''tls'', JBool True)],
          clientOptions := Some [(str ''w'', JStr (str ''majority''))]\<rparr>))
   \<and> \<not> sublist (str ''authMechanism='') (str ''w'' @ str ''='' @ str ''majority'')
   \<and> constructor exampleConstants (emptyOptions\<lparr>username := JStr (str ''bob''),
          host := JStr (str ''h:27017''), authSource := JStr (str ''admin''),
          tlsOptions := Some [(str ''tls'', JBool True)],
          clientOptions := Some [(str ''w'', JStr (str ''majority''))]\<rparr>)
       = Inr (str ''mongodb://bob@h:27017/?authSource=admin&w=majority'')
   \<and> \<not> sublist (str ''authMechanism='') (str ''mongodb://bob@h:27017/?authSource=admin&w=majority'')"
  using no_authMechanism_text_without_authMechanism
    [of "emptyOptions\<lparr>username := JStr (str ''bob''),
          host := JStr (str ''h:27017''), authSource := JStr (str ''admin''),
          tlsOptions := Some [(str ''tls'', JBool True)],
          clientOptions := Some [(str ''w'', JStr (str ''majority''))]\<rparr>"
        "str ''mongodb://''" "str ''mongodb+srv://''" "str ''MONGODB-X509''"
        "str ''mongodb://bob@h:27017/?authSource=admin&w=majority''"]
  by (simp add: encode_defs constructor_defs example_defs proviso_defs
        sublist_Cons_right prefix_Cons)

end
